theory Spec2Isabelle
  imports Main "HOL-Library.Word"
begin

unbundle bit_operations_syntax

section \<open>Common ground: bytes, exceptions, Python sequences\<close>

text \<open>
  The buffers of the library are \<^verbatim>\<open>array.array('B')\<close>: sequences of unsigned 8-bit
  values.  Python integers are unbounded and are modelled by \<^typ>\<open>int\<close>; lengths and
  buffer positions, which never go negative, by \<^typ>\<open>nat\<close>.
\<close>

type_synonym byte = "8 word"

text \<open>
  Every exception the modelled code can raise is a value.  The classes
  \<^verbatim>\<open>MP3DataError\<close>, \<^verbatim>\<open>MP3ReservedError\<close> and \<^verbatim>\<open>MP3UsageError\<close> belong to the module
  \<^verbatim>\<open>errors\<close>, which the package imports.
\<close>

datatype error =
    ValueError
  | IndexError
  | TypeError
  | AssertionError
  | AttributeError
  | MP3UsageError
  | MP3DataError
  | MP3ReservedError
  | NameError
  | EOFError

definition err_bind :: "error + 'a \<Rightarrow> ('a \<Rightarrow> error + 'b) \<Rightarrow> error + 'b" where
  "err_bind m f = (case m of Inl e \<Rightarrow> Inl e | Inr x \<Rightarrow> f x)"

text \<open>
  Subscription of a tuple by a Python integer: an index below zero counts from the
  end, and an index outside the tuple raises \<^verbatim>\<open>IndexError\<close>.
\<close>

definition tuple_item :: "'a list \<Rightarrow> int \<Rightarrow> error + 'a" where
  "tuple_item t i =
     (if 0 \<le> i \<and> i < int (length t) then Inr (t ! nat i)
      else if i < 0 \<and> - int (length t) \<le> i then Inr (t ! nat (int (length t) + i))
      else Inl IndexError)"

text \<open>
  Subscription of a table entry that may be \<^verbatim>\<open>None\<close>: subscripting \<^verbatim>\<open>None\<close> raises
  \<^verbatim>\<open>TypeError\<close>.
\<close>

definition opt_tuple_item :: "'a list option \<Rightarrow> int \<Rightarrow> error + 'a" where
  "opt_tuple_item t i = (case t of None \<Rightarrow> Inl TypeError | Some r \<Rightarrow> tuple_item r i)"

text \<open>The slice \<^verbatim>\<open>d[a:b]\<close> for positions \<open>0 \<le> a\<close>, \<open>0 \<le> b\<close>.\<close>

definition slice :: "'a list \<Rightarrow> nat \<Rightarrow> nat \<Rightarrow> 'a list" where
  "slice d a b = take (b - a) (drop a d)"


text \<open>
  Slices with Python integers as bounds: a bound below zero counts from the end, and both
  bounds are clamped to the sequence.  \<open>py_slice xs a b\<close> is \<^verbatim>\<open>xs[a:b]\<close>,
  \<open>py_slice_from xs a\<close> is \<^verbatim>\<open>xs[a:]\<close> and \<open>py_slice_to xs b\<close> is \<^verbatim>\<open>xs[:b]\<close>.
\<close>

definition py_index :: "nat \<Rightarrow> int \<Rightarrow> nat" where
  "py_index n i = (if i < 0 then nat (max 0 (int n + i)) else min n (nat i))"

definition py_slice :: "'a list \<Rightarrow> int \<Rightarrow> int \<Rightarrow> 'a list" where
  "py_slice xs a b = take (py_index (length xs) b - py_index (length xs) a) (drop (py_index (length xs) a) xs)"

definition py_slice_from :: "'a list \<Rightarrow> int \<Rightarrow> 'a list" where
  "py_slice_from xs a = drop (py_index (length xs) a) xs"

definition py_slice_to :: "'a list \<Rightarrow> int \<Rightarrow> 'a list" where
  "py_slice_to xs b = take (py_index (length xs) b) xs"

text \<open>Reading \<^verbatim>\<open>d[i]\<close> from a byte array, at a position that is not negative.\<close>

definition get_item :: "byte list \<Rightarrow> nat \<Rightarrow> error + int" where
  "get_item d i = (if i < length d then Inr (uint (d ! i)) else Inl IndexError)"


section \<open>Tables and arithmetic (mp3frame/mp3bits.py)\<close>

definition brs :: "int list \<Rightarrow> int option list" where
  "brs kbrs = None # map (\<lambda>x. Some (x * 1000)) kbrs"

definition br_v1L1 :: "int option list" where
  "br_v1L1 = brs [32,64,96, 128,160,192,224, 256,288,320,352, 384,416,448]"

definition br_v1L2 :: "int option list" where
  "br_v1L2 = brs [32,48,56, 64,80,96,112, 128,160,192,224, 256,320,384]"

definition br_v1L3 :: "int option list" where
  "br_v1L3 = brs [32,40,48, 56,64,80,96, 112,128,160,192, 224,256,320]"

definition br_v2L1 :: "int option list" where
  "br_v2L1 = brs [32,48,56, 64,80,96,112, 128,144,160,176, 192,224,256]"

definition br_v2L2 :: "int option list" where
  "br_v2L2 = brs [8,16,24, 32,40,48,56, 64,80,96,112, 128,144,160]"

definition br_v2L3 :: "int option list" where
  "br_v2L3 = br_v2L2"

text \<open>Indexed by version, layer, bitrate index.\<close>

definition br_tables :: "int option list option list option list" where
  "br_tables =
     [Some [None, Some br_v2L3, Some br_v2L2, Some br_v2L1],
      None,
      Some [None, Some br_v2L3, Some br_v2L2, Some br_v2L1],
      Some [None, Some br_v1L3, Some br_v1L2, Some br_v1L1]]"

text \<open>Indexed by version, samplerate index.\<close>

definition sr_table :: "int option list list" where
  "sr_table =
     [[Some 11025, Some 12000, Some 8000, None],
      [None, None, None, None],
      [Some 22050, Some 24000, Some 16000, None],
      [Some 44100, Some 48000, Some 32000, None]]"

text \<open>Samples per frame, indexed by version, layer.\<close>

definition spf_table :: "int option list list" where
  "spf_table =
     [[None, Some 576, Some 1152, Some 384],
      [None, None, None, None],
      [None, Some 576, Some 1152, Some 384],
      [None, Some 1152, Some 1152, Some 384]]"

definition samples_per_frame :: "int \<Rightarrow> int \<Rightarrow> error + int" where
  "samples_per_frame version_index layer_index =
     (if version_index < 0 \<or> version_index > 3 then Inl ValueError
      else if layer_index < 0 \<or> layer_index > 3 then Inl ValueError
      else err_bind (tuple_item spf_table version_index) (\<lambda>row.
           err_bind (tuple_item row layer_index) (\<lambda>ret.
             case ret of None \<Rightarrow> Inl MP3ReservedError | Some v \<Rightarrow> Inr v)))"

definition samplerate :: "int \<Rightarrow> int \<Rightarrow> error + int" where
  "samplerate version_index samplerate_index =
     (if samplerate_index < 0 \<or> samplerate_index > 3 then Inl ValueError
      else if version_index < 0 \<or> version_index > 3 then Inl ValueError
      else err_bind (tuple_item sr_table version_index) (\<lambda>row.
           err_bind (tuple_item row samplerate_index) (\<lambda>ret.
             case ret of None \<Rightarrow> Inl MP3ReservedError | Some v \<Rightarrow> Inr v)))"

text \<open>The result \<open>None\<close> stands for a free-format frame.\<close>

definition bitrate :: "int \<Rightarrow> int \<Rightarrow> int \<Rightarrow> error + int option" where
  "bitrate version_index layer_index bitrate_index =
     (if version_index = 1 \<or> layer_index = 0 \<or> bitrate_index = 15 then Inl MP3ReservedError
      else err_bind (tuple_item br_tables version_index) (\<lambda>by_layer.
           err_bind (opt_tuple_item by_layer layer_index) (\<lambda>by_index.
             opt_tuple_item by_index bitrate_index)))"

definition sample_size :: "int \<Rightarrow> error + int" where
  "sample_size layer_index =
     (if layer_index = 1 then Inr 1
      else if layer_index = 2 then Inr 1
      else if layer_index = 3 then Inr 4
      else if layer_index = 0 then Inl MP3ReservedError
      else Inl ValueError)"

text \<open>
  \<^verbatim>\<open>frame_size\<close>.  The source first reads \<^verbatim>\<open>ss = sample_size(layer_index)\<close>, which may
  raise, then overwrites \<^verbatim>\<open>ss\<close> with 1, or with 4 for layer 1 (\<^verbatim>\<open>layer_index == 3\<close>).
  It also assigns \<^verbatim>\<open>mult\<close> (12, 72 or 144), but the returned expression never reads it:
  \<^verbatim>\<open>((spf // (ss * 8)) * br // sr) + ((padding != 0) * ss)\<close>.
\<close>

definition frame_size :: "int \<Rightarrow> int \<Rightarrow> int \<Rightarrow> int \<Rightarrow> int \<Rightarrow> error + int option" where
  "frame_size version_index layer_index bitrate_index samplerate_index padding =
     err_bind (bitrate version_index layer_index bitrate_index) (\<lambda>br.
       case br of
         None \<Rightarrow> Inr None
       | Some br \<Rightarrow>
           err_bind (samples_per_frame version_index layer_index) (\<lambda>spf.
           err_bind (samplerate version_index samplerate_index) (\<lambda>sr.
           err_bind (sample_size layer_index) (\<lambda>ss0.
             let ss = (if layer_index = 3 then 4 else 1)
             in Inr (Some (((spf div (ss * 8)) * br) div sr
                           + (if padding \<noteq> 0 then 1 else 0) * ss))))))"

text \<open>
  The frame length as the specification words it:
  \<open>((mult * kbps * 1000) / sr) * ss + (padded ? ss : 0)\<close>, the inner division truncated,
  with \<open>mult = 12\<close>, \<open>ss = 4\<close> for layer 1, \<open>mult = 72\<close>, \<open>ss = 1\<close> for MPEG2/2.5 layer 3,
  and \<open>mult = 144\<close>, \<open>ss = 1\<close> otherwise.  Here \<open>br\<close> is the bitrate in bits per second
  (\<open>kbps * 1000\<close>).
\<close>

definition spec_frame_length :: "int \<Rightarrow> int \<Rightarrow> int \<Rightarrow> int \<Rightarrow> int \<Rightarrow> int" where
  "spec_frame_length version_index layer_index br sr padded =
     (let mult = (if layer_index = 3 then 12
                  else if layer_index = 1 \<and> version_index \<noteq> 3 then 72 else 144);
          ss = (if layer_index = 3 then 4 else 1)
      in ((mult * br) div sr) * ss + (if padded \<noteq> 0 then ss else 0))"

definition side_info_size :: "int \<Rightarrow> int \<Rightarrow> nat" where
  "side_info_size version_index channel_mode =
     (let lsf = (version_index \<noteq> 3); mono = (channel_mode = 3)
      in if lsf then (if mono then 9 else 17) else (if mono then 17 else 32))"

text \<open>
  The bit offset of each \<^verbatim>\<open>part2_3_length\<close> value within the side info.
\<close>

definition side_info_bit_offsets :: "int \<Rightarrow> int \<Rightarrow> nat list" where
  "side_info_bit_offsets version_index channel_mode =
     (let lsf = (version_index \<noteq> 3); mono = (channel_mode = 3)
      in if lsf then (if mono then [9] else [10, 73])
         else (if mono then [18, 77] else [20, 79, 138, 197]))"


section \<open>Checksums (mp3frame/frames.py)\<close>

text \<open>
  \<^verbatim>\<open>crc16_bits(val, bits, start)\<close>: the loop decrements \<^verbatim>\<open>bits\<close> and halves \<^verbatim>\<open>mask\<close> before
  it tests them, so within the body \<^verbatim>\<open>mask == 1 << bits\<close>; the recursion below is on the
  number of bits that remain.
\<close>

definition crc_poly :: int where
  "crc_poly = 0x8005"

fun crc16_bits :: "int \<Rightarrow> nat \<Rightarrow> int \<Rightarrow> int" where
  "crc16_bits val 0 crc = crc"
| "crc16_bits val (Suc bits) crc =
     crc16_bits val bits
       (if drop_bit bits (val AND push_bit bits 1) XOR drop_bit 15 crc \<noteq> 0
        then push_bit 1 (crc AND 0x7fff) XOR crc_poly
        else push_bit 1 (crc AND 0x7fff))"

definition crc_table :: "int list" where
  "crc_table = map (\<lambda>x. crc16_bits (int x) 8 0) [0 ..< 256]"

text \<open>
  \<^verbatim>\<open>crc16(data, start)\<close>: one table lookup for each byte.  The lookup is a tuple
  subscription, which raises outside the 256 entries.
\<close>

fun crc16 :: "byte list \<Rightarrow> int \<Rightarrow> error + int" where
  "crc16 [] crc = Inr crc"
| "crc16 (ch # data) crc =
     err_bind (tuple_item crc_table (drop_bit 8 crc XOR uint ch)) (\<lambda>t.
       crc16 data (push_bit 8 (crc AND 0xff) XOR t))"

text \<open>The bit-granular function applied to each byte in turn, eight bits at a time.\<close>

definition crc16_bytewise :: "byte list \<Rightarrow> int \<Rightarrow> int" where
  "crc16_bytewise data start = foldl (\<lambda>crc ch. crc16_bits (uint ch) 8 crc) start data"


text \<open>
  The checksum as the specification words it: CRC-16 with the polynomial \<open>0x8005\<close>, most
  significant bit first, no reflection, no final exclusive-or.  The register has 16 bits.
  For each bit of the message, the highest bit of each byte first, the register is shifted
  left by one, and the polynomial is added when the bit shifted out differs from the
  message bit.  The result is the register as it stands after the last bit.
\<close>

definition spec_crc16_bit :: "16 word \<Rightarrow> bool \<Rightarrow> 16 word" where
  "spec_crc16_bit reg b =
     (if bit reg 15 \<noteq> b then push_bit 1 reg XOR 0x8005 else push_bit 1 reg)"

definition msb_first_bits :: "byte \<Rightarrow> bool list" where
  "msb_first_bits ch = map (bit ch) [7, 6, 5, 4, 3, 2, 1, 0]"

definition spec_crc16 :: "byte list \<Rightarrow> 16 word \<Rightarrow> 16 word" where
  "spec_crc16 d init = foldl spec_crc16_bit init (concat (map msb_first_bits d))"

text \<open>
  The customary check input of checksum catalogues, the nine characters \<open>123456789\<close>.  With
  the start value \<open>0xFFFF\<close> the checksum described above has the check value \<open>0xAEE7\<close>.
\<close>

definition check_input :: "byte list" where
  "check_input = map of_char ''123456789''"

text \<open>
  Two auxiliary functions for the proofs about the checksum: the shift of the register,
  and one round of \<^verbatim>\<open>crc16_bits\<close> with the tested bit given as a truth value.
\<close>

definition sh :: "int \<Rightarrow> int" where "sh c = push_bit 1 (c AND 0x7fff)"

definition crc_step :: "bool \<Rightarrow> int \<Rightarrow> int" where
  "crc_step b c = sh c XOR (if b \<noteq> bit c 15 then crc_poly else 0)"


section \<open>Frame headers (mp3frame/frames.py)\<close>

record FrameHeader =
  version_index :: int
  layer_index :: int
  protection_bit :: int
  bitrate_index :: int
  samplerate_index :: int
  padded :: int
  private_bit :: int
  channel_mode :: int
  mode_extension :: int
  copy_control :: int
  original :: int
  emphasis :: int
  raw_data :: "byte list"

text \<open>
  \<^verbatim>\<open>FrameHeader._decode(data)\<close> keeps a copy of the first four bytes and reads the fields
  from the bytes 1, 2 and 3.  Byte 0 is not read.  Reading \<^verbatim>\<open>data[3]\<close> of a shorter array
  raises \<^verbatim>\<open>IndexError\<close>.  (The field \<^verbatim>\<open>private\<close> is named \<open>private_bit\<close> here.)
\<close>

definition FrameHeader_decode :: "byte list \<Rightarrow> error + FrameHeader" where
  "FrameHeader_decode data =
     (if length data < 4 then Inl IndexError
      else
        let d1 = uint (data ! 1); d2 = uint (data ! 2); d3 = uint (data ! 3)
        in Inr \<lparr> version_index = drop_bit 3 d1 AND 3,
                 layer_index = drop_bit 1 d1 AND 3,
                 protection_bit = d1 AND 1,
                 bitrate_index = drop_bit 4 d2,
                 samplerate_index = drop_bit 2 d2 AND 3,
                 padded = drop_bit 1 d2 AND 1,
                 private_bit = d2 AND 1,
                 channel_mode = drop_bit 6 d3,
                 mode_extension = drop_bit 4 d3 AND 3,
                 copy_control = drop_bit 3 d3 AND 1,
                 original = drop_bit 2 d3 AND 1,
                 emphasis = d3 AND 3,
                 raw_data = take 4 data \<rparr>)"

text \<open>
  The constructor \<^verbatim>\<open>FrameHeader(raw_data)\<close>, without keyword arguments: an absent or empty
  array stands for the default header, a short one raises \<^verbatim>\<open>ValueError\<close>.
\<close>

definition FrameHeader_init :: "byte list option \<Rightarrow> error + FrameHeader" where
  "FrameHeader_init raw =
     (case raw of
        None \<Rightarrow> FrameHeader_decode [0xff, 0xfa, 0x60, 0x00]
      | Some d \<Rightarrow>
          if d = [] then FrameHeader_decode [0xff, 0xfa, 0x60, 0x00]
          else if length d < 4 then Inl ValueError
          else FrameHeader_decode d)"

text \<open>The local function \<^verbatim>\<open>mask(field, mask)\<close> of \<^verbatim>\<open>encode\<close>.\<close>

definition mask_field :: "int \<Rightarrow> int \<Rightarrow> error + int" where
  "mask_field val m = (if val < 0 \<or> val > m then Inl ValueError else Inr val)"

text \<open>Assignment \<^verbatim>\<open>d[i] = v\<close> into a byte array.\<close>

definition set_item :: "byte list \<Rightarrow> nat \<Rightarrow> int \<Rightarrow> error + byte list" where
  "set_item d i v = (if i < length d then Inr (d[i := word_of_int v]) else Inl IndexError)"

text \<open>
  \<^verbatim>\<open>FrameHeader.encode()\<close> writes the four bytes of \<^verbatim>\<open>raw_data\<close> in place, in order, each
  after the range checks of its own fields.
\<close>

definition FrameHeader_encode :: "FrameHeader \<Rightarrow> error + FrameHeader" where
  "FrameHeader_encode h =
     err_bind (set_item (raw_data h) 0 0xff) (\<lambda>d.
     err_bind (mask_field (version_index h) 3) (\<lambda>v.
     err_bind (mask_field (layer_index h) 3) (\<lambda>l.
     err_bind (mask_field (protection_bit h) 1) (\<lambda>p.
     err_bind (set_item d 1 (0xe0 OR push_bit 3 v OR push_bit 1 l OR p)) (\<lambda>d.
     err_bind (mask_field (bitrate_index h) 15) (\<lambda>b.
     err_bind (mask_field (samplerate_index h) 3) (\<lambda>s.
     err_bind (mask_field (padded h) 1) (\<lambda>pa.
     err_bind (mask_field (private_bit h) 1) (\<lambda>pr.
     err_bind (set_item d 2 (push_bit 4 b OR push_bit 2 s OR push_bit 1 pa OR pr)) (\<lambda>d.
     err_bind (mask_field (channel_mode h) 3) (\<lambda>c.
     err_bind (mask_field (mode_extension h) 3) (\<lambda>m.
     err_bind (mask_field (copy_control h) 1) (\<lambda>cc.
     err_bind (mask_field (original h) 1) (\<lambda>og.
     err_bind (mask_field (emphasis h) 3) (\<lambda>e.
     err_bind (set_item d 3 (push_bit 6 c OR push_bit 4 m OR push_bit 3 cc OR push_bit 2 og OR e))
       (\<lambda>d. Inr (h\<lparr>raw_data := d\<rparr>)))))))))))))))))"

text \<open>The 32-bit value of the first four bytes, most significant byte first.\<close>

definition head32 :: "byte list \<Rightarrow> nat \<Rightarrow> int" where
  "head32 d pos =
     push_bit 24 (uint (d ! pos)) OR push_bit 16 (uint (d ! (pos + 1)))
       OR push_bit 8 (uint (d ! (pos + 2))) OR uint (d ! (pos + 3))"


section \<open>Bit fields (mp3frame/bitfields.py)\<close>

definition high0_mask :: "nat \<Rightarrow> int" where
  "high0_mask x = drop_bit x 0xff"

definition high1_mask :: "nat \<Rightarrow> int" where
  "high1_mask x = drop_bit x 0xff00 AND 0xff"

text \<open>
  The getters of \<^verbatim>\<open>make_property(bytefield_name, offset, bits)\<close>.  A field that lies
  within one byte and ends before the byte does is read by \<^verbatim>\<open>get_simple\<close>; every other
  field by \<^verbatim>\<open>get_multibyte\<close>, whose \<^verbatim>\<open>start_bits = 8 - offset % 8\<close> is never 0, so the
  first byte is always read through \<^verbatim>\<open>start_mask\<close>.
\<close>

definition get_simple :: "byte list \<Rightarrow> nat \<Rightarrow> nat \<Rightarrow> error + int" where
  "get_simple data offset bits =
     (let start = offset div 8;
          shift = 8 - (offset + bits) mod 8;
          mask = drop_bit (offset mod 8) (high1_mask bits)
      in err_bind (get_item data start) (\<lambda>b. Inr (drop_bit shift (b AND mask))))"

text \<open>The loop \<^verbatim>\<open>while pos < end: val = (val << 8) | data[pos]\<close>, over its positions.\<close>

fun read_whole_bytes :: "byte list \<Rightarrow> nat list \<Rightarrow> int \<Rightarrow> error + int" where
  "read_whole_bytes data [] val = Inr val"
| "read_whole_bytes data (pos # ps) val =
     err_bind (get_item data pos) (\<lambda>b. read_whole_bytes data ps (push_bit 8 val OR b))"

definition get_multibyte :: "byte list \<Rightarrow> nat \<Rightarrow> nat \<Rightarrow> error + int" where
  "get_multibyte data offset bits =
     (let start = offset div 8;
          end = (offset + bits) div 8;
          end_bits = (offset + bits) mod 8;
          shift = 8 - end_bits;
          start_mask = high0_mask (offset mod 8)
      in err_bind (get_item data start) (\<lambda>b0.
         err_bind (read_whole_bytes data [Suc start ..< end] (b0 AND start_mask)) (\<lambda>val.
           if end_bits \<noteq> 0
           then err_bind (get_item data end) (\<lambda>be. Inr (push_bit end_bits val OR drop_bit shift be))
           else Inr val)))"

definition bitfield_get :: "byte list \<Rightarrow> nat \<Rightarrow> nat \<Rightarrow> error + int" where
  "bitfield_get data offset bits =
     (if offset div 8 = (offset + bits) div 8 then get_simple data offset bits
      else get_multibyte data offset bits)"


section \<open>Layer 3 side info (mp3frame/side_info.py)\<close>

text \<open>
  The four side info classes differ in \<open>lsf\<close> (MPEG2 and MPEG2.5) and \<open>mono\<close>.  An
  instance holds the raw bytes; its fields are bit fields of them.
\<close>

record SideInfo =
  lsf :: bool
  mono :: bool
  si_raw_data :: "byte list"

text \<open>
  \<^verbatim>\<open>SideInfo(version_index, channel_mode, raw_data)\<close>: an absent or empty array is
  replaced by zero bytes of the size of the class.
\<close>

definition SideInfo_init :: "int \<Rightarrow> int \<Rightarrow> byte list option \<Rightarrow> SideInfo" where
  "SideInfo_init version chmode raw =
     (let l = (version \<noteq> 3); m = (chmode = 3);
          blank = replicate (side_info_size (if l then 2 else 3) (if m then 3 else 0)) 0
      in \<lparr> lsf = l, mono = m,
           si_raw_data = (case raw of None \<Rightarrow> blank | Some d \<Rightarrow> if d = [] then blank else d) \<rparr>)"

definition main_data_begin :: "SideInfo \<Rightarrow> error + int" where
  "main_data_begin si = bitfield_get (si_raw_data si) 0 (if lsf si then 8 else 9)"

text \<open>
  The granules in the order in which \<^verbatim>\<open>_calc_part2_3_bytes\<close> visits them: channel by
  channel, and within a channel granule by granule.  The granule \<open>g\<close> of channel \<open>c\<close> is at
  the offset number \<open>g * chancount + c\<close>; its first field is \<^verbatim>\<open>part2_3_length\<close>, 12 bits.
\<close>

definition granule_offsets :: "SideInfo \<Rightarrow> nat list" where
  "granule_offsets si =
     (let offsets = side_info_bit_offsets (if lsf si then 2 else 3) (if mono si then 3 else 0);
          grancount = (if lsf si then 1 else 2);
          chancount = (if mono si then 1 else 2)
      in concat (map (\<lambda>c. map (\<lambda>g. offsets ! (g * chancount + c)) [0 ..< grancount])
                     [0 ..< chancount]))"

fun sum_part2_3_length :: "byte list \<Rightarrow> nat list \<Rightarrow> int \<Rightarrow> error + int" where
  "sum_part2_3_length data [] tot = Inr tot"
| "sum_part2_3_length data (offset # offs) tot =
     err_bind (bitfield_get data offset 12) (\<lambda>v. sum_part2_3_length data offs (tot + v))"

definition part2_3_bytes :: "SideInfo \<Rightarrow> error + int" where
  "part2_3_bytes si =
     err_bind (sum_part2_3_length (si_raw_data si) (granule_offsets si) 0) (\<lambda>tot.
       Inr ((tot + 7) div 8))"

definition part2_3_end :: "SideInfo \<Rightarrow> error + int" where
  "part2_3_end si =
     err_bind (part2_3_bytes si) (\<lambda>b. err_bind (main_data_begin si) (\<lambda>m. Inr (b - m)))"


section \<open>Frames (mp3frame/frames.py)\<close>

text \<open>
  An \<^verbatim>\<open>MP3Frame\<close> as \<^verbatim>\<open>_create_frame\<close> fills it.  The field \<^verbatim>\<open>crc16\<close> is named
  \<open>frame_crc16\<close> here; \<^verbatim>\<open>side_info\<close> is set for layer 3 only.
\<close>

record MP3Frame =
  header :: FrameHeader
  side_info :: "SideInfo option"
  raw_body :: "byte list"
  frame_crc16 :: "int option"
  resynced :: bool
  frame_number :: nat
  byte_position :: nat

text \<open>\<^verbatim>\<open>MP3Frame.__len__\<close>.  Reading the side info of a frame that has none raises.\<close>

definition MP3Frame_len :: "MP3Frame \<Rightarrow> error + nat" where
  "MP3Frame_len fr =
     (let sz = 4 + (if protection_bit (header fr) = 0 then 2 else 0)
      in if layer_index (header fr) = 1
         then (case side_info fr of
                 None \<Rightarrow> Inl AttributeError
               | Some si \<Rightarrow> Inr (sz + length (si_raw_data si) + length (raw_body fr)))
         else Inr (sz + length (raw_body fr)))"


section \<open>The bit reservoir (mp3frame/sync.py, LogicalFrameAssembler)\<close>

text \<open>
  \<^verbatim>\<open>ancillary_skipped\<close> is a slot that \<^verbatim>\<open>__init__\<close> leaves unset; \<^verbatim>\<open>frame_in\<close> assigns it
  before anything reads it.
\<close>

record LogicalFrameAssembler =
  reservoir :: "byte list"
  last_end :: int
  ancillary_skipped :: "int option"

definition LogicalFrameAssembler_init :: LogicalFrameAssembler where
  "LogicalFrameAssembler_init = \<lparr> reservoir = [], last_end = 0, ancillary_skipped = None \<rparr>"

text \<open>
  The main data of a layer 3 frame, from the reservoir and the body: the branches of
  \<^verbatim>\<open>frame_in\<close> that assign \<^verbatim>\<open>data\<close>, with the \<^verbatim>\<open>assert begin > 0\<close> of the third.  The
  message printed in the second branch is not modelled.
\<close>

definition main_data :: "byte list \<Rightarrow> byte list \<Rightarrow> int \<Rightarrow> int \<Rightarrow> error + byte list option" where
  "main_data res body begin main_len =
     (if begin > int (length res) then Inr None
      else
        let end = main_len - begin
        in if end > int (length body) then Inr None
           else if end < 0
             then (if begin > 0 then Inr (Some (py_slice res (- begin) end))
                   else Inl AssertionError)
           else if begin > 0 then Inr (Some (py_slice_from res (- begin) @ py_slice_to body end))
           else Inr (Some (py_slice_to body end)))"

text \<open>The reservoir after a layer 3 frame: at least 511 bytes are kept.\<close>

definition store_reservoir :: "byte list \<Rightarrow> byte list \<Rightarrow> byte list" where
  "store_reservoir res body =
     (if length body \<ge> 511 \<or> res = [] then body
      else
        (if length res + length body > 4096
         then py_slice_from res (- (max 1 (511 - int (length body))))
         else res) @ body)"

text \<open>
  \<^verbatim>\<open>frame_in(fr)\<close> returns the assembler as the call leaves it and the returned value, which
  is \<open>None\<close> when the frame refers to data that is not available.
\<close>

definition frame_in ::
  "LogicalFrameAssembler \<Rightarrow> MP3Frame \<Rightarrow> error + (LogicalFrameAssembler \<times> byte list option)" where
  "frame_in a fr =
     (let body = raw_body fr;
          unused_reservoir = int (length (reservoir a)) - last_end a
      in if layer_index (header fr) \<noteq> 1
         then Inr ((if unused_reservoir \<noteq> 0
                    then a\<lparr>reservoir := [], last_end := 0, ancillary_skipped := Some unused_reservoir\<rparr>
                    else a\<lparr>ancillary_skipped := Some unused_reservoir\<rparr>),
                   Some body)
         else
           (case side_info fr of
              None \<Rightarrow> Inl AttributeError
            | Some si \<Rightarrow>
                err_bind (main_data_begin si) (\<lambda>begin.
                err_bind (part2_3_bytes si) (\<lambda>main_len.
                err_bind (main_data (reservoir a) body begin main_len) (\<lambda>data.
                  let res' = store_reservoir (reservoir a) body;
                      a' = a\<lparr>reservoir := res', ancillary_skipped := Some (unused_reservoir - begin)\<rparr>
                  in case data of
                       None \<Rightarrow> Inr (a'\<lparr>last_end := last_end a - int (length body)\<rparr>, None)
                     | Some dt \<Rightarrow>
                         if int (length dt) = main_len
                         then Inr (a'\<lparr>last_end := int (length body)
                                         - (int (length dt) - (main_len - begin))\<rparr>, Some dt)
                         else Inl AssertionError)))))"


text \<open>
  The main data as the specification lists it, case by case, with \<open>end = main_len - begin\<close>:
  nothing if \<open>begin > len(reservoir)\<close>; else nothing if \<open>end > len(raw_body)\<close>; else
  \<open>reservoir[-begin .. end]\<close> if \<open>end < 0\<close>; else \<open>reservoir[-begin ..] ++ raw_body[.. end]\<close>
  if \<open>begin > 0\<close>; else \<open>raw_body[.. end]\<close>.
\<close>

definition spec_main_data :: "byte list \<Rightarrow> byte list \<Rightarrow> int \<Rightarrow> int \<Rightarrow> byte list option" where
  "spec_main_data res body begin main_len =
     (let end = main_len - begin
      in if begin > int (length res) then None
         else if end > int (length body) then None
         else if end < 0 then Some (py_slice res (- begin) end)
         else if begin > 0 then Some (py_slice_from res (- begin) @ py_slice_to body end)
         else Some (py_slice_to body end))"


text \<open>
  The top 11 bits of a header are all 1 when byte 0 is \<open>0xff\<close> and the three high bits of
  byte 1 are set.
\<close>

definition top11_set :: "byte list \<Rightarrow> bool" where
  "top11_set d = (d ! 0 = 0xff \<and> (d ! 1) AND 0xe0 = 0xe0)"

text \<open>Decoding four bytes and encoding the header again; the result is \<^verbatim>\<open>raw_data\<close>.\<close>

definition reencode :: "byte list \<Rightarrow> error + byte list" where
  "reencode d =
     err_bind (FrameHeader_init (Some d)) (\<lambda>h.
     err_bind (FrameHeader_encode h) (\<lambda>h'. Inr (raw_data h')))"


section \<open>Comment tags (mp3frame/mp3ext.py)\<close>

text \<open>
  \<^verbatim>\<open>_startswith(arr, prefix, arr_offset)\<close>: the loop over the prefix, element by element.
  Reading past the end of the array raises \<^verbatim>\<open>IndexError\<close>.  Every caller passes an offset
  that is not negative.
\<close>

fun startswith :: "byte list \<Rightarrow> int list \<Rightarrow> nat \<Rightarrow> error + bool" where
  "startswith arr [] arr_offset = Inr True"
| "startswith arr (p # ps) arr_offset =
     err_bind (get_item arr arr_offset) (\<lambda>b.
       if b \<noteq> p then Inr False else startswith arr ps (Suc arr_offset))"

definition enc :: "string \<Rightarrow> int list" where
  "enc txt = map (\<lambda>c. int (of_char c)) txt"

definition ID3 :: "int list" where "ID3 = enc ''ID3''"
definition TAG :: "int list" where "TAG = enc ''TAG''"
definition APETAGEX :: "int list" where "APETAGEX = enc ''APETAGEX''"
definition LYRICSBEGIN :: "int list" where "LYRICSBEGIN = enc ''LYRICSBEGIN''"
definition LYRICSEND :: "int list" where "LYRICSEND = enc ''LYRICSEND''"
definition LYRICS200 :: "int list" where "LYRICS200 = enc ''LYRICS200''"

text \<open>
  \<^verbatim>\<open>len(data) >= n and not _startswith(data, prefix, offset)\<close>: the prefix is compared only
  when the length test passes.
\<close>

definition long_without_prefix :: "byte list \<Rightarrow> nat \<Rightarrow> nat \<Rightarrow> int list \<Rightarrow> nat \<Rightarrow> error + bool" where
  "long_without_prefix d taglen n prefix arr_offset =
     (if taglen \<ge> n then err_bind (startswith d prefix arr_offset) (\<lambda>b. Inr (\<not> b))
      else Inr False)"

definition id3v2_size :: "byte list \<Rightarrow> error + int" where
  "id3v2_size d =
     err_bind (long_without_prefix d (length d) 3 ID3 0) (\<lambda>other.
       if other then Inr 0
       else if length d < 10 then Inr (- 1)
       else if d ! 3 = 0xff \<or> d ! 4 = 0xff then Inr 0
       else if \<exists>i \<in> set (slice d 6 10). i \<ge> 0x80 then Inr 0
       else
         let flags = uint (d ! 5);
             id3len = 10 + (push_bit 21 (uint (d ! 6)) + push_bit 14 (uint (d ! 7))
                            + push_bit 7 (uint (d ! 8)) + uint (d ! 9))
         in Inr (if flags AND 0x40 \<noteq> 0 then id3len + 10 else id3len))"

text \<open>
  \<^verbatim>\<open>id3v1_size(data, eof, offset)\<close>; the callers pass an offset that is at most
  \<^verbatim>\<open>len(data)\<close>.
\<close>

definition id3v1_size :: "byte list \<Rightarrow> bool \<Rightarrow> nat \<Rightarrow> error + int" where
  "id3v1_size d eof arr_offset =
     (let taglen = length d - arr_offset
      in err_bind (long_without_prefix d taglen 3 TAG arr_offset) (\<lambda>other.
           if other then Inr 0
           else if taglen = 128 \<and> eof then Inr 128
           else if taglen < 128 \<and> \<not> eof then Inr (- 1)
           else Inr 0))"

text \<open>
  \<^verbatim>\<open>apev2_size\<close> calls \<^verbatim>\<open>struct.unpack\<close>, and the module \<^verbatim>\<open>mp3ext\<close> imports nothing: once
  16 bytes that start with the magic are there, the name \<^verbatim>\<open>struct\<close> is looked up and
  \<^verbatim>\<open>NameError\<close> is raised.
\<close>

definition apev2_size :: "byte list \<Rightarrow> error + int" where
  "apev2_size d =
     err_bind (long_without_prefix d (length d) 8 APETAGEX 0) (\<lambda>other.
       if other then Inr 0
       else if length d < 16 then Inr (- 1)
       else Inl NameError)"

text \<open>The local functions \<^verbatim>\<open>_ucase\<close> and \<^verbatim>\<open>_val\<close> of \<^verbatim>\<open>lyrics_field_info\<close>.\<close>

definition ucase :: "byte list \<Rightarrow> nat \<Rightarrow> error + bool" where
  "ucase d pos = err_bind (get_item d pos) (\<lambda>ch. Inr (ch > 64 \<and> ch \<le> 64 + 26))"

fun digits_val :: "byte list \<Rightarrow> nat list \<Rightarrow> int \<Rightarrow> error + int option" where
  "digits_val d [] ret = Inr (Some ret)"
| "digits_val d (i # is) ret =
     err_bind (get_item d i) (\<lambda>ch.
       if ch < 48 \<or> ch > 57 then Inr None
       else digits_val d is (ret * 10 + (ch - 48)))"

definition val :: "byte list \<Rightarrow> nat \<Rightarrow> nat \<Rightarrow> error + int option" where
  "val d pos len = digits_val d [pos ..< pos + len] 0"

text \<open>
  \<^verbatim>\<open>lyrics_field_info(data, offset)\<close> returns \<open>None\<close>, or the name of the field (absent for
  the tag length field) and its size.  The tests of \<^verbatim>\<open>_ucase\<close> are joined by \<^verbatim>\<open>and\<close>,
  so a later one runs only when the earlier ones hold.
\<close>

definition lyrics_field_info :: "byte list \<Rightarrow> nat \<Rightarrow> error + (byte list option \<times> int) option" where
  "lyrics_field_info d arr_offset =
     err_bind (ucase d arr_offset) (\<lambda>u0.
     err_bind (if u0 then ucase d (arr_offset + 1) else Inr False) (\<lambda>u1.
     err_bind (if u1 then ucase d (arr_offset + 2) else Inr False) (\<lambda>u2.
       if u2
       then err_bind (val d (arr_offset + 3) 5) (\<lambda>v.
              case v of None \<Rightarrow> Inr None
              | Some n \<Rightarrow> Inr (Some (Some (slice d arr_offset (arr_offset + 3)), n)))
       else err_bind (val d arr_offset 6) (\<lambda>v.
              case v of None \<Rightarrow> Inr None
              | Some n \<Rightarrow> Inr (Some (None, n))))))"

text \<open>
  The loop of \<^verbatim>\<open>lyrics3v2_size\<close> either returns from the function or ends with a
  position.
\<close>

datatype scan = Return int | Ended nat

function lyrics3v2_loop :: "byte list \<Rightarrow> nat \<Rightarrow> error + scan" where
  "lyrics3v2_loop d pos =
     (if pos + 8 < length d
      then (if pos \<ge> 0x80000 then Inr (Return 0)
            else (case lyrics_field_info d pos of
                    Inl e \<Rightarrow> Inl e
                  | Inr None \<Rightarrow> Inr (Return 0)
                  | Inr (Some (None, sz)) \<Rightarrow>
                      if int pos \<noteq> sz then Inr (Return 0) else Inr (Ended (pos + 6))
                  | Inr (Some (Some name, sz)) \<Rightarrow> lyrics3v2_loop d (pos + nat sz + 8)))
      else Inr (Ended pos))"
  by pat_completeness auto
termination
  by (relation "measure (\<lambda>(d, pos). length d - pos)") auto

definition lyrics3v2_size :: "byte list \<Rightarrow> error + int" where
  "lyrics3v2_size d =
     err_bind (long_without_prefix d (length d) 11 LYRICSBEGIN 0) (\<lambda>other.
       if other then Inr 0
       else err_bind (lyrics3v2_loop d 11) (\<lambda>r.
         case r of
           Return v \<Rightarrow> Inr v
         | Ended pos \<Rightarrow>
             if pos + 9 > length d then Inr (- 1)
             else err_bind (startswith d LYRICS200 pos) (\<lambda>b.
                    Inr (if b then int pos + 9 else 0))))"

definition lyrics3v1_size :: "byte list \<Rightarrow> bool \<Rightarrow> error + int" where
  "lyrics3v1_size d eof =
     (let taglen = length d
      in err_bind (long_without_prefix d taglen 11 LYRICSBEGIN 0) (\<lambda>other.
           if other then Inr 0
           else if taglen > 5120 + 128 then Inr 0
           else if \<not> eof then Inr (- 1)
           else if taglen < 20 then Inr 0
           else
             err_bind (if taglen \<ge> 128 + 20
                       then err_bind (id3v1_size d eof (length d - 128)) (\<lambda>v. Inr (v = 128))
                       else Inr False) (\<lambda>has_id3v1.
               let taglen' = (if has_id3v1 then taglen - 128 else taglen)
               in err_bind (startswith d LYRICSEND (taglen' - 9)) (\<lambda>b.
                    Inr (if b then int taglen' else 0)))))"

text \<open>The value of \<^verbatim>\<open>a or b\<close> for integers.\<close>

definition int_or :: "int \<Rightarrow> int \<Rightarrow> int" where
  "int_or a b = (if a \<noteq> 0 then a else b)"

definition identify_tag :: "byte list \<Rightarrow> bool \<Rightarrow> error + (string option \<times> int)" where
  "identify_tag d eof =
     err_bind (id3v2_size d) (\<lambda>v2.
       if v2 > 0 then Inr (Some ''id3v2'', v2)
       else err_bind (id3v1_size d eof 0) (\<lambda>v1.
         if v1 > 0 then Inr (Some ''id3v1'', v1)
         else err_bind (apev2_size d) (\<lambda>ape.
           if ape > 0 then Inr (Some ''apev2'', ape)
           else err_bind (lyrics3v2_size d) (\<lambda>lyr2.
             if lyr2 > 0 then Inr (Some ''lyrics3v2'', lyr2)
             else err_bind (lyrics3v1_size d eof) (\<lambda>lyr1.
               if lyr1 > 0 then Inr (Some ''lyrics3v1'', lyr1)
               else if eof then Inr (None, 0)
               else Inr (None, int_or v2 (int_or v1 (int_or ape (int_or lyr2 lyr1)))))))))"


section \<open>Synchronisation (mp3frame/sync.py, BaseSync)\<close>

text \<open>
  The state of a \<^verbatim>\<open>BaseSync\<close>.  \<open>sync_skip\<close> and \<open>bytes_returned\<close> start at 0 and are
  only ever increased, or decreased with a floor of 0, so they are natural numbers.
\<close>

record BaseSync =
  data :: "byte list"
  bytes_returned :: nat
  read_eof :: bool
  sync_skip :: nat
  sync_header :: int
  sync_mask :: int

definition BaseSync_init :: BaseSync where
  "BaseSync_init =
     \<lparr> data = [], bytes_returned = 0, read_eof = False, sync_skip = 0,
       sync_header = push_bit 16 0xffe0, sync_mask = push_bit 16 0xffe0 \<rparr>"

text \<open>
  \<^verbatim>\<open>fromfile(file, bytes)\<close>.  The file is the list of the bytes it still holds;
  \<^verbatim>\<open>array.fromfile\<close> appends what it can read and raises \<^verbatim>\<open>EOFError\<close> when fewer than the
  requested items were there.  The result is the new state and the rest of the file.
\<close>

definition array_fromfile :: "byte list \<Rightarrow> byte list \<Rightarrow> nat \<Rightarrow> (byte list \<times> byte list) \<times> error option" where
  "array_fromfile arr file n =
     (if n \<le> length file then ((arr @ take n file, drop n file), None)
      else ((arr @ file, []), Some EOFError))"

definition fromfile ::
  "'a BaseSync_scheme \<Rightarrow> byte list \<Rightarrow> nat \<Rightarrow> error + ('a BaseSync_scheme \<times> byte list)" where
  "fromfile s file n =
     (if read_eof s then Inl MP3UsageError
      else
        case array_fromfile (data s) file n of
          ((arr, rest), None) \<Rightarrow> Inr (s\<lparr>data := arr\<rparr>, rest)
        | ((arr, rest), Some e) \<Rightarrow> Inr (s\<lparr>data := arr, read_eof := True\<rparr>, rest))"

text \<open>
  The value of \<^verbatim>\<open>param or self.field\<close> for a keyword parameter that defaults to \<open>None\<close>:
  an absent parameter and the value 0 both select the field.
\<close>

definition param_or :: "int option \<Rightarrow> int \<Rightarrow> int" where
  "param_or p field = (case p of None \<Rightarrow> field | Some v \<Rightarrow> if v = 0 then field else v)"

text \<open>\<^verbatim>\<open>_is_sync(pos, sync_header, sync_mask)\<close>; reading past the buffer raises.\<close>

definition is_sync ::
  "'a BaseSync_scheme \<Rightarrow> nat \<Rightarrow> int option \<Rightarrow> int option \<Rightarrow> error + bool" where
  "is_sync s pos hdr msk =
     (if pos + 3 < length (data s)
      then Inr ((head32 (data s) pos AND param_or msk (sync_mask s)) = param_or hdr (sync_header s))
      else Inl IndexError)"

text \<open>\<^verbatim>\<open>array.index(x)\<close>: the first position of \<open>x\<close>, or \<^verbatim>\<open>ValueError\<close>.\<close>

fun array_index :: "byte list \<Rightarrow> byte \<Rightarrow> error + nat" where
  "array_index [] x = Inl ValueError"
| "array_index (y # ys) x =
     (if y = x then Inr 0 else err_bind (array_index ys x) (\<lambda>i. Inr (Suc i)))"

text \<open>
  The loop of \<^verbatim>\<open>resync\<close>, from the local \<open>offset\<close>.  \<open>pos\<close> is a position in the whole
  buffer (the offset is added to the index found in the slice), and the source adds it to
  \<open>sync_skip\<close> with \<^verbatim>\<open>+=\<close>.  The result is the state and the returned integer.
\<close>

function resync_loop ::
  "'a BaseSync_scheme \<Rightarrow> nat \<Rightarrow> int option \<Rightarrow> int option \<Rightarrow> error + ('a BaseSync_scheme \<times> int)" where
  "resync_loop s offset hdr msk =
     (case array_index (drop offset (data s)) 255 of
        Inl e \<Rightarrow>
          if e = ValueError then Inr (s\<lparr>sync_skip := length (data s)\<rparr>, - 1) else Inl e
      | Inr i \<Rightarrow>
          if (i + offset) + 4 > length (data s)
          then Inr (s\<lparr>sync_skip := sync_skip s + (i + offset)\<rparr>, - 1)
          else (case is_sync s (i + offset) hdr msk of
                  Inl e \<Rightarrow> Inl e
                | Inr True \<Rightarrow>
                    Inr (s\<lparr>sync_skip := sync_skip s + (i + offset)\<rparr>,
                         int (sync_skip s + (i + offset)))
                | Inr False \<Rightarrow>
                    resync_loop (s\<lparr>sync_skip := sync_skip s + (i + offset) + 1\<rparr>)
                      (sync_skip s + (i + offset) + 1) hdr msk))"
  by pat_completeness auto
termination
  by (relation "measure (\<lambda>(s, offset, hdr, msk). length (data s) - offset)") auto

declare resync_loop.simps [simp del]

definition resync ::
  "'a BaseSync_scheme \<Rightarrow> int \<Rightarrow> int option \<Rightarrow> int option \<Rightarrow> error + ('a BaseSync_scheme \<times> int)" where
  "resync s offset hdr msk = resync_loop s (nat (max offset (int (sync_skip s)))) hdr msk"

text \<open>The tuples that \<^verbatim>\<open>identify\<close> returns.\<close>

datatype ident = IdSync | IdGarbage int | IdTag int "string option"

definition identify :: "'a BaseSync_scheme \<Rightarrow> error + ('a BaseSync_scheme \<times> ident option)" where
  "identify s =
     (let d = data s
      in if length d < 4
         then (if read_eof s \<and> d \<noteq> [] then Inr (s, Some (IdGarbage (int (length d))))
               else Inr (s, None))
         else
           err_bind (is_sync s 0 None None) (\<lambda>synced_now.
             if synced_now then Inr (s, Some IdSync)
             else
               err_bind (identify_tag d (read_eof s)) (\<lambda>(tagtype, tagsize).
                 if tagsize > 0 then Inr (s, Some (IdTag tagsize tagtype))
                 else if tagsize = - 1 then Inr (s, None)
                 else
                   err_bind (resync s 0 None None) (\<lambda>(s', syncpos).
                     if syncpos > 0 then Inr (s', Some (IdGarbage syncpos))
                     else if sync_skip s' > 0 then Inr (s', Some (IdGarbage (int (sync_skip s'))))
                     else Inr (s', None)))))"

definition advance :: "'a BaseSync_scheme \<Rightarrow> int \<Rightarrow> error + 'a BaseSync_scheme" where
  "advance s bytes =
     (if bytes > int (length (data s)) \<or> bytes < 0 then Inl MP3UsageError
      else Inr (s\<lparr> bytes_returned := bytes_returned s + nat bytes,
                  data := drop (nat bytes) (data s),
                  sync_skip := nat (max 0 (int (sync_skip s) - bytes)) \<rparr>))"


section \<open>Physical frames (mp3frame/sync.py, PhysicalFrameSync)\<close>

record PhysicalFrameSync = BaseSync +
  synced :: bool
  frames_returned :: nat
  base_framesize :: int

definition PhysicalFrameSync_init :: PhysicalFrameSync where
  "PhysicalFrameSync_init =
     \<lparr> data = [], bytes_returned = 0, read_eof = False, sync_skip = 0,
       sync_header = push_bit 16 0xffe0, sync_mask = push_bit 16 0xffe0,
       synced = True, frames_returned = 0, base_framesize = - 1 \<rparr>"

text \<open>\<^verbatim>\<open>frames.CommentTag(type, data)\<close>; its field \<^verbatim>\<open>raw_data\<close> is named \<open>tag_raw_data\<close> here.\<close>

record CommentTag =
  tag_type :: "string option"
  tag_raw_data :: "byte list"

text \<open>The pairs that \<^verbatim>\<open>readitem\<close> returns, and the three outcomes of \<^verbatim>\<open>_create_frame\<close>.\<close>

datatype item = ItemFrame MP3Frame | ItemTag CommentTag | ItemGarbage "byte list"

datatype frame_result = MoreData | Resync | Created MP3Frame

text \<open>
  \<^verbatim>\<open>_create_frame\<close> reads \<^verbatim>\<open>head.frame_size\<close>, \<^verbatim>\<open>head.side_info_size\<close>, \<^verbatim>\<open>head.padding\<close> and
  \<^verbatim>\<open>head.sample_size\<close> of a \<^verbatim>\<open>frames.FrameHeader\<close>.  That class declares \<^verbatim>\<open>__slots__\<close> with
  the thirteen names of the record \<^typ>\<open>FrameHeader\<close> and defines no property and no
  \<^verbatim>\<open>__getattr__\<close>, so none of the four names is an attribute of its instances: reading one
  raises \<^verbatim>\<open>AttributeError\<close>.  (Only the class \<^verbatim>\<open>Header\<close> of the older module
  \<^verbatim>\<open>mp3frame.py\<close> has properties \<^verbatim>\<open>frame_size\<close> and \<^verbatim>\<open>side_info_size\<close>.)
\<close>

definition FrameHeader_frame_size :: "FrameHeader \<Rightarrow> error + int option" where
  "FrameHeader_frame_size head = Inl AttributeError"

definition FrameHeader_side_info_size :: "FrameHeader \<Rightarrow> error + int" where
  "FrameHeader_side_info_size head = Inl AttributeError"

definition FrameHeader_padding :: "FrameHeader \<Rightarrow> error + int" where
  "FrameHeader_padding head = Inl AttributeError"

definition FrameHeader_sample_size :: "FrameHeader \<Rightarrow> error + int" where
  "FrameHeader_sample_size head = Inl AttributeError"

text \<open>
  Modelled from the spec: the class hierarchy of the module \<^verbatim>\<open>errors\<close>, which is not among
  the sources.  A reserved field value is reported like malformed data inside
  \<^verbatim>\<open>_create_frame\<close>, so \<^verbatim>\<open>except errors.MP3DataError\<close> catches \<^verbatim>\<open>MP3ReservedError\<close> too.
\<close>

definition is_MP3DataError :: "error \<Rightarrow> bool" where
  "is_MP3DataError e = (e = MP3DataError \<or> e = MP3ReservedError)"

text \<open>\<^verbatim>\<open>not sz\<close> for a size that is \<open>None\<close> or an integer, and \<^verbatim>\<open>sz or other\<close>.\<close>

definition falsy :: "int option \<Rightarrow> bool" where
  "falsy sz = (sz = None \<or> sz = Some 0)"

definition size_or :: "int option \<Rightarrow> int \<Rightarrow> int" where
  "size_or sz other = (case sz of None \<Rightarrow> other | Some v \<Rightarrow> if v = 0 then other else v)"

text \<open>
  \<^verbatim>\<open>sz\<close> plus, or minus, the sample size of a padded frame: \<^verbatim>\<open>if head.padding: sz += head.sample_size\<close>.
\<close>

definition padding_adjusted :: "FrameHeader \<Rightarrow> int \<Rightarrow> bool \<Rightarrow> error + int" where
  "padding_adjusted head sz adding =
     err_bind (FrameHeader_padding head) (\<lambda>p.
       if p \<noteq> 0
       then err_bind (FrameHeader_sample_size head) (\<lambda>ss. Inr (if adding then sz + ss else sz - ss))
       else Inr sz)"

text \<open>
  The free-format branch of \<^verbatim>\<open>_create_frame\<close> (\<^verbatim>\<open>if not sz:\<close>): it searches for the next
  syncword and either returns from \<^verbatim>\<open>_create_frame\<close> (\<open>Inl\<close>) or yields the frame size.
\<close>

definition free_format_size ::
  "'a PhysicalFrameSync_scheme \<Rightarrow> FrameHeader \<Rightarrow> int \<Rightarrow> SideInfo option
     \<Rightarrow> error + ('a PhysicalFrameSync_scheme \<times> (frame_result + int))" where
  "free_format_size s head offset0 si_obj =
     (let d = data s
      in err_bind (case si_obj of
                     None \<Rightarrow> Inr offset0
                   | Some si \<Rightarrow> err_bind (part2_3_end si) (\<lambda>e. Inr (offset0 + max 0 e))) (\<lambda>offset.
         err_bind (get_item d 1) (\<lambda>d1.
         err_bind (get_item d 2) (\<lambda>d2.
         err_bind (resync s offset (Some (push_bit 24 0xff OR push_bit 16 d1 OR push_bit 8 d2))
                     (Some 0xfffffc00)) (\<lambda>(s1, found).
         err_bind
           (if found = - 1
            then (if length d \<ge> 8192 then Inr (s1\<lparr>sync_skip := 0\<rparr>, Inl Resync)
                  else if \<not> read_eof s1 then Inr (s1, Inl MoreData)
                  else if length d > 128
                    then err_bind (id3v1_size (py_slice_from d (- 128)) True 0) (\<lambda>tagsz.
                           Inr (s1, Inr (if tagsz > 0 then int (length d) - tagsz
                                         else int (length d))))
                    else Inr (s1, Inr (int (length d))))
            else Inr (s1, Inr found)) (\<lambda>(s2, outcome).
           case outcome of
             Inl res \<Rightarrow> Inr (s2, Inl res)
           | Inr sz \<Rightarrow>
               if \<not> sz \<ge> offset then Inl AssertionError
               else if base_framesize s2 < 0
                 then err_bind (padding_adjusted head sz False) (\<lambda>base_sz.
                        Inr (s2\<lparr>base_framesize := base_sz\<rparr>, Inr sz))
                 else Inr (s2, Inr sz)))))))"

text \<open>The end of \<^verbatim>\<open>_create_frame\<close>, from \<^verbatim>\<open>assert sz > 0\<close>.\<close>

definition finish_frame ::
  "'a PhysicalFrameSync_scheme \<Rightarrow> FrameHeader \<Rightarrow> int \<Rightarrow> int \<Rightarrow> SideInfo option \<Rightarrow> int
     \<Rightarrow> error + ('a PhysicalFrameSync_scheme \<times> frame_result)" where
  "finish_frame s head headsz sidesz si_obj sz =
     (let d = data s
      in if \<not> sz > 0 then Inl AssertionError
         else if int (length d) < sz then Inr (s, MoreData)
         else
           err_bind (if protection_bit head = 0
                     then err_bind (get_item d 4) (\<lambda>d4.
                          err_bind (get_item d 5) (\<lambda>d5. Inr (Some (push_bit 8 d4 OR d5))))
                     else Inr None) (\<lambda>crc.
           let fr = \<lparr> header = head, side_info = si_obj,
                      raw_body = py_slice d (headsz + sidesz) sz,
                      frame_crc16 = crc, resynced = (\<not> synced s),
                      frame_number = frames_returned s, byte_position = bytes_returned s \<rparr>
           in err_bind (advance s sz) (\<lambda>s'.
                Inr (s'\<lparr>frames_returned := frames_returned s' + 1, synced := True\<rparr>,
                     Created fr))))"

definition create_frame ::
  "'a PhysicalFrameSync_scheme \<Rightarrow> error + ('a PhysicalFrameSync_scheme \<times> frame_result)" where
  "create_frame s =
     (let d = data s
      in err_bind (FrameHeader_init (Some d)) (\<lambda>head.
         let headsz = (if protection_bit head = 0 then 4 + 2 else 4)
         in case err_bind (FrameHeader_frame_size head) (\<lambda>sz.
                 err_bind (if layer_index head = 1 then FrameHeader_side_info_size head
                           else Inr 0) (\<lambda>sidesz. Inr (sz, sidesz))) of
              Inl e \<Rightarrow> if is_MP3DataError e then Inr (s, Resync) else Inl e
            | Inr (sz, sidesz) \<Rightarrow>
                if int (length d) < size_or sz (headsz + sidesz) then Inr (s, MoreData)
                else
                  let si_obj = (if sidesz \<noteq> 0
                                then Some (SideInfo_init (version_index head) (channel_mode head)
                                             (Some (py_slice d headsz (headsz + sidesz))))
                                else None)
                  in err_bind (if falsy sz \<and> base_framesize s \<noteq> 0
                               then err_bind (padding_adjusted head (base_framesize s) True)
                                      (\<lambda>v. Inr (Some v))
                               else Inr sz) (\<lambda>sz1.
                     if falsy sz1
                     then err_bind (free_format_size s head (headsz + sidesz) si_obj)
                            (\<lambda>(s2, outcome).
                               case outcome of
                                 Inl res \<Rightarrow> Inr (s2, res)
                               | Inr sz2 \<Rightarrow> finish_frame s2 head headsz sidesz si_obj sz2)
                     else finish_frame s head headsz sidesz si_obj (the sz1))))"

text \<open>
  \<^verbatim>\<open>readitem\<close> returns the state and the item, or \<open>None\<close> when it asks for more data.  The
  local \<open>d\<close> is the buffer as it is when the call starts.
\<close>

definition emit_garbage ::
  "'a PhysicalFrameSync_scheme \<Rightarrow> byte list \<Rightarrow> int
     \<Rightarrow> error + ('a PhysicalFrameSync_scheme \<times> item option)" where
  "emit_garbage s d sz =
     err_bind (advance (s\<lparr>synced := False\<rparr>) sz) (\<lambda>s'.
       Inr (s', Some (ItemGarbage (py_slice_to d sz))))"

definition readitem ::
  "'a PhysicalFrameSync_scheme \<Rightarrow> error + ('a PhysicalFrameSync_scheme \<times> item option)" where
  "readitem s =
     (let d = data s
      in if length d < 4 then Inr (s, None)
         else
           err_bind (identify s) (\<lambda>(s1, idn).
             case idn of
               None \<Rightarrow> Inr (s1, None)
             | Some IdSync \<Rightarrow>
                 err_bind (create_frame s1) (\<lambda>(s2, fr).
                   case fr of
                     MoreData \<Rightarrow>
                       if \<not> read_eof s2 then Inr (s2, None)
                       else emit_garbage s2 d (int (length d))
                   | Resync \<Rightarrow> emit_garbage s2 d 1
                   | Created f \<Rightarrow> Inr (s2, Some (ItemFrame f)))
             | Some (IdGarbage sz) \<Rightarrow>
                 if int (length d) < sz then Inr (s1\<lparr>synced := False\<rparr>, None)
                 else err_bind (advance (s1\<lparr>synced := False\<rparr>) sz) (\<lambda>s2.
                        Inr (s2, Some (ItemGarbage (py_slice_to d sz))))
             | Some (IdTag sz tagtype) \<Rightarrow>
                 if int (length d) < sz then Inr (s1\<lparr>synced := True\<rparr>, None)
                 else err_bind (advance (s1\<lparr>synced := True\<rparr>) sz) (\<lambda>s2.
                        Inr (s2, Some (ItemTag \<lparr>tag_type = tagtype,
                                                tag_raw_data = py_slice_to d sz\<rparr>)))))"

text \<open>
  Calling \<^verbatim>\<open>readitem\<close> again and again, at most \<open>n\<close> times, until it returns \<open>None\<close>: the
  items in the order in which they are returned.
\<close>

fun readitems :: "nat \<Rightarrow> 'a PhysicalFrameSync_scheme \<Rightarrow> error + item list" where
  "readitems 0 s = Inr []"
| "readitems (Suc n) s =
     err_bind (readitem s) (\<lambda>(s', it).
       case it of
         None \<Rightarrow> Inr []
       | Some i \<Rightarrow> err_bind (readitems n s') (\<lambda>is. Inr (i # is)))"

text \<open>The input of the scenario S1: a header and 417 zero bytes.\<close>

definition S1_input :: "byte list" where
  "S1_input = [0xFF, 0xFB, 0x90, 0x00] @ replicate 417 0"


section \<open>Sequences of calls on a BaseSync\<close>

text \<open>
  The operations a caller has on a \<^verbatim>\<open>BaseSync\<close>, and the states they lead to from a new
  object.  Next to the state runs the number of bytes taken from the files so far, which is
  the number of bytes appended to the buffer.  A call that raises leaves the object as it
  was: \<^verbatim>\<open>fromfile\<close> and \<^verbatim>\<open>advance\<close> raise before their first assignment, and \<^verbatim>\<open>identify\<close>
  can raise only while it identifies a tag, before it calls \<^verbatim>\<open>resync\<close>.
\<close>

datatype op = Fromfile "byte list" nat | Identify | Resync int "int option" "int option" | Advance int

definition step :: "BaseSync \<times> nat \<Rightarrow> op \<Rightarrow> BaseSync \<times> nat" where
  "step st op =
     (case st of (s, total_in) \<Rightarrow>
        case op of
          Fromfile file n \<Rightarrow>
            (case fromfile s file n of
               Inl e \<Rightarrow> (s, total_in)
             | Inr (s', rest) \<Rightarrow> (s', total_in + (length file - length rest)))
        | Identify \<Rightarrow>
            (case identify s of Inl e \<Rightarrow> (s, total_in) | Inr (s', r) \<Rightarrow> (s', total_in))
        | Resync offset hdr msk \<Rightarrow>
            (case resync s offset hdr msk of
               Inl e \<Rightarrow> (s, total_in) | Inr (s', r) \<Rightarrow> (s', total_in))
        | Advance n \<Rightarrow>
            (case advance s n of Inl e \<Rightarrow> (s, total_in) | Inr s' \<Rightarrow> (s', total_in)))"

definition run :: "op list \<Rightarrow> BaseSync \<times> nat" where
  "run ops = foldl step (BaseSync_init, 0) ops"

definition accounted :: "BaseSync \<times> nat \<Rightarrow> bool" where
  "accounted st = (bytes_returned (fst st) + length (data (fst st)) = snd st)"


section \<open>Properties\<close>

lemma tuple_item_Suc [simp]:
  "0 \<le> i \<Longrightarrow> i < int (length t) \<Longrightarrow> tuple_item t i = Inr (t ! nat i)"
  by (simp add: tuple_item_def)

lemmas mp3bits_defs =
  frame_size_def bitrate_def samples_per_frame_def samplerate_def sample_size_def
  err_bind_def opt_tuple_item_def br_tables_def sr_table_def spf_table_def
  br_v1L1_def br_v1L2_def br_v1L3_def br_v2L1_def br_v2L2_def br_v2L3_def brs_def

text \<open>
  C2.  The claim: for non-reserved indices and a bitrate index that is neither free nor
  reserved, \<^verbatim>\<open>frame_size\<close> returns \<open>((mult * kbps * 1000) / sr) * ss + (padded ? ss : 0)\<close>.
  For MPEG1 layer 1 at 32 kbps and 44100 Hz, unpadded (\<open>version_index = 3\<close>,
  \<open>layer_index = 3\<close>, \<open>bitrate_index = 1\<close>, \<open>samplerate_index = 0\<close>) the code returns
  \<open>(384 div 32) * 32000 div 44100 = 8\<close>, while the formula of the claim gives
  \<open>(12 * 32000 div 44100) * 4 = 32\<close>: the code multiplies only the padding by the
  sample size.
\<close>

theorem frame_size_layer1_divergence:
  "frame_size 3 3 1 0 0 = Inr (Some 8) \<and>
   bitrate 3 3 1 = Inr (Some 32000) \<and> samplerate 3 0 = Inr 44100 \<and>
   spec_frame_length 3 3 32000 44100 0 = 32"
  by (simp add: mp3bits_defs spec_frame_length_def)

subsection \<open>The checksum\<close>

lemma bitn: "drop_bit n ((v::int) AND push_bit n 1) = of_bool (bit v n)"
  by (rule bit_eqI) (auto simp: bit_drop_bit_eq bit_and_iff bit_push_bit_iff bit_of_bool_iff bit_1_iff bit_exp_iff)

lemma top15: "0 \<le> c \<Longrightarrow> c < 65536 \<Longrightarrow> drop_bit 15 (c::int) = of_bool (bit c 15)"
proof -
  assume a: "0 \<le> c" "c < 65536"
  have "drop_bit 15 c = c div 2 ^ 15" by (simp add: drop_bit_eq_div)
  moreover have "c div 2^15 < 2" using a by simp
  moreover have "0 \<le> c div 2^15" using a by simp
  ultimately have "drop_bit 15 c = 0 \<or> drop_bit 15 c = 1" by linarith
  then show ?thesis by (auto simp: bit_iff_odd_drop_bit)
qed

lemma sh_xor: "sh (c XOR c') = sh c XOR sh c'"
  by (simp add: sh_def bit.conj_xor_distrib2 push_bit_xor)

lemma sh_range: "0 \<le> sh c \<and> sh c < 65536"
proof -
  have "0 \<le> c AND 0x7fff" by simp
  moreover have "c AND 0x7fff \<le> 0x7fff" by (rule AND_upper2) simp
  ultimately show ?thesis by (simp add: sh_def push_bit_eq_mult)
qed

lemma crc_step_range: "0 \<le> crc_step b c \<and> crc_step b c < 65536"
proof -
  have "sh c XOR crc_poly < 2 ^ 16"
    by (rule XOR_upper) (use sh_range[of c] in \<open>simp_all add: crc_poly_def\<close>)
  then show ?thesis using sh_range[of c] by (simp add: crc_step_def crc_poly_def)
qed

lemma crc_step_xor: "crc_step (b \<noteq> b') (c XOR c') = crc_step b c XOR crc_step b' c'"
  by (auto simp: crc_step_def sh_xor bit_xor_iff xor.assoc xor.left_commute)

lemma crc16_bits_Suc:
  "0 \<le> c \<Longrightarrow> c < 65536 \<Longrightarrow> crc16_bits v (Suc n) c = crc16_bits v n (crc_step (bit v n) c)"
proof -
  assume a: "0 \<le> c" "c < 65536"
  have "(drop_bit n (v AND push_bit n 1) XOR drop_bit 15 c \<noteq> 0) = (bit v n \<noteq> bit c 15)"
    unfolding bitn top15[OF a] by (cases "bit v n"; cases "bit c 15"; simp)
  then show ?thesis
    by (simp only: crc16_bits.simps crc_step_def sh_def) (cases "bit v n = bit c 15"; simp)
qed

lemma crc16_bits_range:
  "0 \<le> c \<Longrightarrow> c < 65536 \<Longrightarrow> 0 \<le> crc16_bits v n c \<and> crc16_bits v n c < 65536"
proof (induction n arbitrary: c)
  case 0
  then show ?case by simp
next
  case (Suc n)
  show ?case
    unfolding crc16_bits_Suc[OF Suc.prems]
    by (rule Suc.IH) (use crc_step_range in auto)
qed

lemma crc16_bits_xor:
  "0 \<le> c \<Longrightarrow> c < 65536 \<Longrightarrow> 0 \<le> c' \<Longrightarrow> c' < 65536 \<Longrightarrow>
   crc16_bits (v XOR v') n (c XOR c') = crc16_bits v n c XOR crc16_bits v' n c'"
proof (induction n arbitrary: c c')
  case 0
  then show ?case by simp
next
  case (Suc n)
  have r: "0 \<le> c XOR c'" "c XOR c' < 65536"
    using Suc.prems XOR_upper[of c 16 c'] by simp_all
  have b: "bit (v XOR v') n = (bit v n \<noteq> bit v' n)"
    by (simp add: bit_xor_iff)
  show ?case
    using Suc.prems r
    by (simp only: crc16_bits_Suc b crc_step_xor)
       (rule Suc.IH; use crc_step_range in auto)
qed

text \<open>Feeding the register its own top bits only shifts it.\<close>
lemma crc16_bits_shift:
  "0 \<le> c \<Longrightarrow> c < 65536 \<Longrightarrow> n \<le> 16 \<Longrightarrow> (\<And>i. i < n \<Longrightarrow> bit v i = bit c (16 - n + i)) \<Longrightarrow>
   crc16_bits v n c = take_bit 16 (push_bit n c)"
proof (induction n arbitrary: c)
  case 0
  then show ?case by (simp add: take_bit_int_eq_self)
next
  case (Suc n)
  have "bit v n = bit c 15" using Suc.prems(4)[of n] Suc.prems(3) by simp
  then have st: "crc_step (bit v n) c = sh c" by (simp add: crc_step_def)
  have m: "(0x7fff::int) = mask 15" by (simp add: mask_eq_exp_minus_1)
  have she: "sh c = push_bit 1 (take_bit 15 c)"
    unfolding sh_def m by (simp only: take_bit_eq_mask)
  have shb: "bit (sh c) j = (0 < j \<and> j < 16 \<and> bit c (j - 1))" for j
    unfolding she by (simp only: bit_push_bit_iff bit_take_bit_iff) auto
  have ih: "crc16_bits v n (sh c) = take_bit 16 (push_bit n (sh c))"
  proof (rule Suc.IH)
    show "0 \<le> sh c" "sh c < 65536" using sh_range by auto
    show "n \<le> 16" using Suc.prems(3) by simp
    fix i assume "i < n"
    then show "bit v i = bit (sh c) (16 - n + i)"
      using Suc.prems(4)[of i] Suc.prems(3) by (auto simp: shb)
  qed
  have "take_bit 16 (push_bit n (sh c)) = take_bit 16 (push_bit (Suc n) c)"
    by (rule bit_eqI) (simp only: bit_take_bit_iff bit_push_bit_iff shb, auto)
  then show ?case
    using Suc.prems(1,2) by (simp only: crc16_bits_Suc st ih)
qed

lemma crc_table_lookup:
  "0 \<le> i \<Longrightarrow> i < 256 \<Longrightarrow> tuple_item crc_table i = Inr (crc16_bits i 8 0)"
proof -
  assume a: "0 \<le> i" "i < 256"
  then have n: "nat i < 256" by simp
  have "[0..<256] ! nat i = nat i" using n by simp
  then show ?thesis
    using a n by (simp add: crc_table_def tuple_item_def del: crc16_bits.simps upt_Suc)
qed

lemma crc16_step:
  assumes "0 \<le> c" "c < 65536"
  shows "tuple_item crc_table (drop_bit 8 c XOR uint (ch::byte)) = Inr (crc16_bits (drop_bit 8 c XOR uint ch) 8 0)"
    and "push_bit 8 (c AND 0xff) XOR crc16_bits (drop_bit 8 c XOR uint ch) 8 0 = crc16_bits (uint ch) 8 c"
proof -
  have h0: "0 \<le> drop_bit 8 c" "drop_bit 8 c < 256"
    using assms by (simp_all add: drop_bit_eq_div)
  have u: "0 \<le> uint ch" "uint ch < 256"
    using uint_bounded[of ch] by simp_all
  have x: "0 \<le> drop_bit 8 c XOR uint ch" "drop_bit 8 c XOR uint ch < 256"
    using h0 u XOR_upper[of "drop_bit 8 c" 8 "uint ch"] by simp_all
  show "tuple_item crc_table (drop_bit 8 c XOR uint ch) = Inr (crc16_bits (drop_bit 8 c XOR uint ch) 8 0)"
    using x by (rule crc_table_lookup)
  have sh8: "crc16_bits (drop_bit 8 c) 8 c = take_bit 16 (push_bit 8 c)"
    by (rule crc16_bits_shift) (use assms in \<open>simp_all add: bit_drop_bit_eq add.commute\<close>)
  have m: "(0xff::int) = mask 8" by (simp add: mask_eq_exp_minus_1)
  have t: "take_bit 16 (push_bit 8 c) = push_bit 8 (c AND 0xff)"
    unfolding m by (simp only: take_bit_eq_mask[symmetric] take_bit_push_bit) simp
  have "crc16_bits (uint ch) 8 c = crc16_bits ((drop_bit 8 c XOR uint ch) XOR drop_bit 8 c) 8 (0 XOR c)"
    by (simp add: xor.commute xor.left_commute del: crc16_bits.simps)
  also have "\<dots> = crc16_bits (drop_bit 8 c XOR uint ch) 8 0 XOR crc16_bits (drop_bit 8 c) 8 c"
    by (rule crc16_bits_xor) (use assms in simp_all)
  finally show "push_bit 8 (c AND 0xff) XOR crc16_bits (drop_bit 8 c XOR uint ch) 8 0 = crc16_bits (uint ch) 8 c"
    unfolding sh8 t by (simp only: xor.commute)
qed

lemma spec_crc16_bit_uint: "uint (spec_crc16_bit w b) = crc_step b (uint w)"
proof -
  have m: "(0x7fff::int) = mask 15" by (simp add: mask_eq_exp_minus_1)
  have she: "sh (uint w) = push_bit 1 (take_bit 15 (uint w))"
    unfolding sh_def m by (simp only: take_bit_eq_mask)
  have s: "uint (push_bit 1 w) = sh (uint w)"
    unfolding she
    by (rule bit_eqI)
       (simp only: bit_uint_iff bit_push_bit_iff bit_take_bit_iff possible_bit_word, auto)
  have p: "uint (0x8005 :: 16 word) = 0x8005" by simp
  have b: "bit (uint w) 15 = bit w 15" by (simp add: bit_simps)
  show ?thesis
    unfolding spec_crc16_bit_def crc_step_def crc_poly_def b
    by (simp only: s p uint_xor if_distrib[of uint] split: if_splits) auto
qed

lemma crc16_bits_spec:
  "crc16_bits v n (uint w) = uint (foldl spec_crc16_bit w (map (bit v) (rev [0 ..< n])))"
proof (induction n arbitrary: w)
  case 0
  show ?case by simp
next
  case (Suc n)
  have r: "0 \<le> uint w" "uint w < 65536" using uint_bounded[of w] by simp_all
  show ?case
    unfolding crc16_bits_Suc[OF r] spec_crc16_bit_uint[symmetric] Suc.IH
    by simp
qed

lemma msb_first_bits_rev: "msb_first_bits ch = map (bit (uint ch)) (rev [0 ..< 8])"
  by (simp add: msb_first_bits_def bit_simps upt_rec numeral_eq_Suc)

lemma crc16_bytewise_spec:
  "crc16_bytewise d (uint w) = uint (spec_crc16 d w)"
proof (induction d arbitrary: w)
  case Nil
  show ?case by (simp add: crc16_bytewise_def spec_crc16_def)
next
  case (Cons ch d)
  have "crc16_bytewise (ch # d) (uint w) = crc16_bytewise d (crc16_bits (uint ch) 8 (uint w))"
    by (simp add: crc16_bytewise_def del: crc16_bits.simps)
  also have "\<dots> = crc16_bytewise d (uint (foldl spec_crc16_bit w (msb_first_bits ch)))"
    unfolding crc16_bits_spec msb_first_bits_rev ..
  also have "\<dots> = uint (spec_crc16 d (foldl spec_crc16_bit w (msb_first_bits ch)))"
    by (rule Cons.IH)
  also have "\<dots> = uint (spec_crc16 (ch # d) w)"
    by (simp add: spec_crc16_def)
  finally show ?case .
qed


lemma crc16_table_bytewise:
  "0 \<le> start \<Longrightarrow> start < 65536 \<Longrightarrow> crc16 d start = Inr (crc16_bytewise d start)"
proof (induction d arbitrary: start)
  case Nil
  then show ?case by (simp add: crc16_bytewise_def)
next
  case (Cons ch d)
  have r: "0 \<le> crc16_bits (uint ch) 8 start \<and> crc16_bits (uint ch) 8 start < 65536"
    using Cons.prems by (rule crc16_bits_range)
  show ?case
    using Cons.IH[of "crc16_bits (uint ch) 8 start"] r crc16_step[OF Cons.prems, of ch]
    by (simp add: err_bind_def crc16_bytewise_def del: crc16_bits.simps)
qed

lemma check_bytewise: "crc16_bytewise check_input 0xffff = 0xAEE7"
  by code_simp

lemma check_spec: "spec_crc16 check_input 0xffff = 0xAEE7"
  by code_simp

lemma check_table: "crc16 check_input 0xffff = Inr 0xAEE7"
proof -
  have "crc16 check_input 0xffff = Inr (crc16_bytewise check_input 0xffff)"
    by (rule crc16_table_bytewise) simp_all
  then show ?thesis by (simp only: check_bytewise)
qed

text \<open>
  C9.  For every byte sequence and every 16-bit start value, the table-driven
  \<^verbatim>\<open>crc16\<close> returns (no lookup falls outside the table) and its result is that of the
  bit-granular \<^verbatim>\<open>crc16_bits\<close> applied to each byte in turn, eight bits at a time, from the
  same start value.  Both compute the CRC-16 of the specification: polynomial \<open>0x8005\<close>,
  most significant bit first, no reflection, no final exclusive-or, the register starting
  at the given value.  With \<open>0xFFFF\<close>, the default start of both functions, the check input
  \<open>123456789\<close> gives \<open>0xAEE7\<close> in all three.
\<close>

theorem crc16_table_refines_bits:
  "0 \<le> start \<Longrightarrow> start < 65536 \<Longrightarrow>
     crc16 d start = Inr (crc16_bytewise d start)
     \<and> crc16_bytewise d start = uint (spec_crc16 d (word_of_int start))
     \<and> crc16 check_input 0xffff = Inr 0xAEE7
     \<and> crc16_bytewise check_input 0xffff = 0xAEE7
     \<and> spec_crc16 check_input 0xffff = 0xAEE7"
proof -
  assume a: "0 \<le> start" "start < 65536"
  have u: "uint (word_of_int start :: 16 word) = start"
    using a by (simp add: uint_word_of_int take_bit_int_eq_self)
  have "crc16_bytewise d start = uint (spec_crc16 d (word_of_int start))"
    using crc16_bytewise_spec[of d "word_of_int start"] unfolding u .
  then show ?thesis
    using crc16_table_bytewise[OF a, of d] check_table check_bytewise check_spec
    by (simp only: simp_thms)
qed

theorem crc16_table_refines_bits_witness:
  "(0::int) \<le> 0xffff \<and> (0xffff::int) < 65536
   \<and> crc16 [0x31, 0x32, 0x33] 0xffff = Inr (crc16_bytewise [0x31, 0x32, 0x33] 0xffff)
   \<and> crc16_bytewise [0x31, 0x32, 0x33] 0xffff = uint (spec_crc16 [0x31, 0x32, 0x33] 0xffff)
   \<and> crc16 check_input 0xffff = Inr 0xAEE7"
proof -
  have a: "(0::int) \<le> 0xffff" "(0xffff::int) < 65536" by simp_all
  have w: "(word_of_int 0xffff :: 16 word) = 0xffff" by simp
  show ?thesis
    using crc16_table_refines_bits [OF a, of "[0x31, 0x32, 0x33]"] a
    unfolding w by blast
qed

subsection \<open>Frame headers\<close>

lemma lt8: "k < 8 \<Longrightarrow> k = 7 \<or> k = 6 \<or> k = 5 \<or> k = 4 \<or> k = 3 \<or> k = 2 \<or> k = 1 \<or> k = (0::nat)"
  by arith

lemma bit_times2: "bit (a * 2 :: int) n = (n \<noteq> 0 \<and> bit a (n - 1))"
  using bit_double_iff[of a n] by (auto simp: mult.commute)

lemma bit_SS0: "bit (b::byte) (Suc (Suc 0)) = bit b 2"
  by (simp add: numeral_2_eq_2)

lemma div_ranges: "0 \<le> (x::int) \<Longrightarrow> x < 256 \<Longrightarrow> 0 \<le> x div 16 \<and> x div 16 \<le> 15"
  "0 \<le> (x::int) \<Longrightarrow> x < 256 \<Longrightarrow> 0 \<le> x div 64 \<and> x div 64 \<le> 3"
  by arith+

lemma byte1: "b AND 0xe0 = 0xe0 \<Longrightarrow>
  word_of_int (0xe0 OR push_bit 3 (drop_bit 3 (uint b) AND 3) OR push_bit 1 (drop_bit 1 (uint b) AND 3) OR (uint b AND 1)) = (b::byte)"
proof -
  assume a: "b AND 0xe0 = 0xe0"
  have hb: "bit b n" if "n = 5 \<or> n = 6 \<or> n = 7" for n
  proof -
    have "bit (0xe0 :: byte) n" using that by auto
    then have "bit (b AND 0xe0) n" using a by simp
    then show ?thesis by (simp add: bit_and_iff)
  qed
  show ?thesis
  proof (rule bit_word_eqI)
    fix n assume "n < LENGTH(8)"
    then have "n < 8" by simp
    from lt8[OF this] show "bit (word_of_int (0xe0 OR push_bit 3 (drop_bit 3 (uint b) AND 3) OR push_bit 1 (drop_bit 1 (uint b) AND 3) OR (uint b AND 1)) :: byte) n = bit b n"
      using hb[of 5] hb[of 6] hb[of 7]
      by (elim disjE; simp add: bit_simps bit_times2 bit_SS0)
  qed
qed

lemma byte2: "word_of_int (push_bit 4 (drop_bit 4 (uint b)) OR push_bit 2 (drop_bit 2 (uint b) AND 3)
       OR push_bit 1 (drop_bit 1 (uint b) AND 1) OR (uint b AND 1)) = (b::byte)"
proof (rule bit_word_eqI)
  fix n assume "n < LENGTH(8)"
  then have "n < 8" by simp
  from lt8[OF this] show "bit (word_of_int (push_bit 4 (drop_bit 4 (uint b)) OR push_bit 2 (drop_bit 2 (uint b) AND 3)
       OR push_bit 1 (drop_bit 1 (uint b) AND 1) OR (uint b AND 1)) :: byte) n = bit b n"
    by (elim disjE; simp add: bit_simps bit_times2 bit_SS0)
qed

lemma byte3: "word_of_int (push_bit 6 (drop_bit 6 (uint b)) OR push_bit 4 (drop_bit 4 (uint b) AND 3)
       OR push_bit 3 (drop_bit 3 (uint b) AND 1) OR push_bit 2 (drop_bit 2 (uint b) AND 1) OR (uint b AND 3)) = (b::byte)"
proof (rule bit_word_eqI)
  fix n assume "n < LENGTH(8)"
  then have "n < 8" by simp
  from lt8[OF this] show "bit (word_of_int (push_bit 6 (drop_bit 6 (uint b)) OR push_bit 4 (drop_bit 4 (uint b) AND 3)
       OR push_bit 3 (drop_bit 3 (uint b) AND 1) OR push_bit 2 (drop_bit 2 (uint b) AND 1) OR (uint b AND 3)) :: byte) n = bit b n"
    by (elim disjE; simp add: bit_simps bit_times2 bit_SS0)
qed

lemma and_range: "0 \<le> (x::int) AND 3 \<and> x AND 3 \<le> 3" "0 \<le> (x::int) AND 1 \<and> x AND 1 \<le> 1"
  by (simp_all add: AND_upper2)

lemma drop_uint_range: "0 \<le> drop_bit 4 (uint (b::byte)) \<and> drop_bit 4 (uint b) \<le> 15"
   "0 \<le> drop_bit 6 (uint (b::byte)) \<and> drop_bit 6 (uint b) \<le> 3"
proof -
  have "0 \<le> uint b" "uint b < 256" using uint_bounded[of b] by simp_all
  then show "0 \<le> drop_bit 4 (uint (b::byte)) \<and> drop_bit 4 (uint b) \<le> 15"
   "0 \<le> drop_bit 6 (uint (b::byte)) \<and> drop_bit 6 (uint b) \<le> 3"
    unfolding drop_bit_eq_div using div_ranges[of "uint b"] by simp_all
qed

lemma len4: "length d = 4 \<Longrightarrow> \<exists>a b c e. d = [a, b, c, e]"
  by (cases d; simp; rename_tac x xs; case_tac xs; simp; rename_tac y ys; case_tac ys; simp;
      rename_tac z zs; case_tac zs; simp)

lemma mask_field_ok: "0 \<le> v \<Longrightarrow> v \<le> m \<Longrightarrow> mask_field v m = Inr v"
  by (simp add: mask_field_def)

lemma err_bind_Inr: "err_bind (Inr x) f = f x"
  by (simp add: err_bind_def)

lemma set_item_4:
  "set_item [a, b, c, e] 0 v = Inr [word_of_int v, b, c, e]"
  "set_item [a, b, c, e] 1 v = Inr [a, word_of_int v, c, e]"
  "set_item [a, b, c, e] 2 v = Inr [a, b, word_of_int v, e]"
  "set_item [a, b, c, e] 3 v = Inr [a, b, c, word_of_int v]"
  by (simp_all add: set_item_def)

lemma mask_field_decoded:
  "mask_field (x AND 3) 3 = Inr (x AND 3)"
  "mask_field (x AND 1) 1 = Inr (x AND 1)"
  "mask_field (drop_bit 4 (uint (b::byte))) 15 = Inr (drop_bit 4 (uint b))"
  "mask_field (drop_bit 6 (uint (b::byte))) 3 = Inr (drop_bit 6 (uint b))"
  using and_range[of x] drop_uint_range[of b] by (simp_all only: mask_field_ok)

lemma word_ff: "word_of_int 0xff = (0xff::byte)"
  by simp

text \<open>
  C7.  For every 4-byte sequence whose top 11 bits are all 1, encoding the header decoded
  from it gives the same four bytes again.  The restriction of the claim to fields in
  non-reserved ranges is not needed: the identity holds for reserved field values too, so
  in particular for the headers the claim is about.
\<close>

theorem encode_decode_identity:
  "length d = 4 \<Longrightarrow> top11_set d \<Longrightarrow> reencode d = Inr d"
proof -
  assume l: "length d = 4" and t: "top11_set d"
  obtain a b c e where d: "d = [a, b, c, e]" using len4[OF l] by blast
  have a: "a = 0xff" and b: "b AND 0xe0 = 0xe0" using t by (simp_all add: top11_set_def d)
  define H where "H = \<lparr> version_index = drop_bit 3 (uint b) AND 3,
                 layer_index = drop_bit 1 (uint b) AND 3,
                 protection_bit = uint b AND 1,
                 bitrate_index = drop_bit 4 (uint c),
                 samplerate_index = drop_bit 2 (uint c) AND 3,
                 padded = drop_bit 1 (uint c) AND 1,
                 private_bit = uint c AND 1,
                 channel_mode = drop_bit 6 (uint e),
                 mode_extension = drop_bit 4 (uint e) AND 3,
                 copy_control = drop_bit 3 (uint e) AND 1,
                 original = drop_bit 2 (uint e) AND 1,
                 emphasis = uint e AND 3,
                 raw_data = [a, b, c, e] \<rparr>"
  have dec: "FrameHeader_init (Some d) = Inr H"
    unfolding H_def d by (simp add: FrameHeader_init_def FrameHeader_decode_def Let_def)
  have enc: "FrameHeader_encode H = Inr (H\<lparr>raw_data := [a, b, c, e]\<rparr>)"
    unfolding FrameHeader_encode_def H_def
    by (simp only: FrameHeader.select_convs mask_field_decoded err_bind_Inr set_item_4
          byte1[OF b] byte2 byte3 word_ff a[symmetric])
  show ?thesis
    unfolding reencode_def dec err_bind_Inr enc by (simp add: d)
qed

theorem encode_decode_identity_witness:
  "length [0xff, 0xfb, 0x90, 0x00 :: byte] = 4 \<and> top11_set [0xff, 0xfb, 0x90, 0x00]
   \<and> reencode [0xff, 0xfb, 0x90, 0x00] = Inr [0xff, 0xfb, 0x90, 0x00]"
  using encode_decode_identity[of "[0xff, 0xfb, 0x90, 0x00]"] by (simp add: top11_set_def)

text \<open>
  C6 as stated fails: \<^verbatim>\<open>FrameHeader._decode\<close> never reads byte 0 and tests no sync
  bits.  Four zero bytes, whose top 11 bits are all clear, decode to a header with every
  field 0.
\<close>

theorem FrameHeader_decode_accepts_unsynced:
  "FrameHeader_init (Some [0x00, 0x00, 0x00, 0x00]) =
     Inr \<lparr> version_index = 0, layer_index = 0, protection_bit = 0, bitrate_index = 0,
            samplerate_index = 0, padded = 0, private_bit = 0, channel_mode = 0,
            mode_extension = 0, copy_control = 0, original = 0, emphasis = 0,
            raw_data = [0x00, 0x00, 0x00, 0x00] \<rparr>
   \<and> head32 [0x00, 0x00, 0x00, 0x00] 0 AND 0xffe00000 \<noteq> 0xffe00000"
  by (simp add: FrameHeader_init_def FrameHeader_decode_def head32_def)

text \<open>
  C6, amended.  For every input of at least 4 bytes, whatever its top 11 bits, decoding
  succeeds: there is no sync test and no other validation.  The header keeps the first four
  bytes, and every decoded field lies in its declared range.
\<close>

theorem FrameHeader_decode_total:
  "4 \<le> length d \<Longrightarrow>
   (\<exists>h. FrameHeader_init (Some d) = Inr h \<and> raw_data h = take 4 d \<and>
      0 \<le> version_index h \<and> version_index h \<le> 3 \<and>
      0 \<le> layer_index h \<and> layer_index h \<le> 3 \<and>
      0 \<le> protection_bit h \<and> protection_bit h \<le> 1 \<and>
      0 \<le> bitrate_index h \<and> bitrate_index h \<le> 15 \<and>
      0 \<le> samplerate_index h \<and> samplerate_index h \<le> 3 \<and>
      0 \<le> padded h \<and> padded h \<le> 1 \<and>
      0 \<le> private_bit h \<and> private_bit h \<le> 1 \<and>
      0 \<le> channel_mode h \<and> channel_mode h \<le> 3 \<and>
      0 \<le> mode_extension h \<and> mode_extension h \<le> 3 \<and>
      0 \<le> copy_control h \<and> copy_control h \<le> 1 \<and>
      0 \<le> original h \<and> original h \<le> 1 \<and>
      0 \<le> emphasis h \<and> emphasis h \<le> 3)"
proof -
  assume l: "4 \<le> length d"
  then have ne: "d \<noteq> []" by auto
  show ?thesis
    using l ne
    by (simp add: FrameHeader_init_def FrameHeader_decode_def Let_def and_range drop_uint_range)
qed

theorem FrameHeader_decode_total_witness:
  "4 \<le> length [0x12, 0x34, 0x56, 0x78 :: byte] \<and>
   (\<exists>h. FrameHeader_init (Some [0x12, 0x34, 0x56, 0x78]) = Inr h \<and> raw_data h = [0x12, 0x34, 0x56, 0x78])"
  using FrameHeader_decode_total[of "[0x12, 0x34, 0x56, 0x78]"] by auto

subsection \<open>The bit reservoir\<close>

lemma get_item_nonneg: "get_item d i = Inr v \<Longrightarrow> 0 \<le> v"
  by (auto simp: get_item_def split: if_splits)

lemma err_bind_InrD: "err_bind m f = Inr y \<Longrightarrow> \<exists>x. m = Inr x \<and> f x = Inr y"
  by (cases m) (simp_all add: err_bind_def)

lemma read_whole_bytes_nonneg:
  "read_whole_bytes d ps v = Inr w \<Longrightarrow> 0 \<le> v \<Longrightarrow> 0 \<le> w"
proof (induction ps arbitrary: v)
  case Nil
  then show ?case by simp
next
  case (Cons p ps)
  from Cons.prems(1) obtain b where b: "get_item d p = Inr b"
    and r: "read_whole_bytes d ps (push_bit 8 v OR b) = Inr w"
    by (auto dest!: err_bind_InrD)
  have "0 \<le> push_bit 8 v OR b" using Cons.prems(2) get_item_nonneg[OF b] by simp
  then show ?case using Cons.IH[OF r] by simp
qed

lemma bitfield_get_nonneg: "bitfield_get d off bits = Inr v \<Longrightarrow> 0 \<le> v"
proof -
  assume a: "bitfield_get d off bits = Inr v"
  show ?thesis
  proof (cases "off div 8 = (off + bits) div 8")
    case True
    then have "get_simple d off bits = Inr v" using a by (simp add: bitfield_get_def)
    then show ?thesis
      by (auto simp: get_simple_def Let_def dest!: err_bind_InrD dest: get_item_nonneg)
  next
    case False
    then have g: "get_multibyte d off bits = Inr v" using a by (simp add: bitfield_get_def)
    then obtain b0 val where b0: "get_item d (off div 8) = Inr b0"
      and rw: "read_whole_bytes d [Suc (off div 8) ..< (off + bits) div 8] (b0 AND high0_mask (off mod 8)) = Inr val"
      and fin: "(if (off + bits) mod 8 \<noteq> 0
           then err_bind (get_item d ((off + bits) div 8)) (\<lambda>be. Inr (push_bit ((off + bits) mod 8) val OR drop_bit (8 - (off + bits) mod 8) be))
           else Inr val) = Inr v"
      unfolding get_multibyte_def Let_def by (auto dest!: err_bind_InrD)
    have "0 \<le> b0 AND high0_mask (off mod 8)" using get_item_nonneg[OF b0] by simp
    then have v0: "0 \<le> val" using read_whole_bytes_nonneg[OF rw] by simp
    show ?thesis
    proof (cases "(off + bits) mod 8 \<noteq> 0")
      case True
      then obtain be where be: "get_item d ((off + bits) div 8) = Inr be"
        and v: "v = push_bit ((off + bits) mod 8) val OR drop_bit (8 - (off + bits) mod 8) be"
        using fin by (auto dest!: err_bind_InrD)
      show ?thesis unfolding v using v0 get_item_nonneg[OF be] by simp
    next
      case False
      then show ?thesis using fin v0 by simp
    qed
  qed
qed

lemma main_data_begin_nonneg: "main_data_begin si = Inr b \<Longrightarrow> 0 \<le> b"
  unfolding main_data_begin_def by (rule bitfield_get_nonneg)

lemma sum_part2_3_length_nonneg:
  "sum_part2_3_length d offs t = Inr s \<Longrightarrow> 0 \<le> t \<Longrightarrow> 0 \<le> s"
proof (induction offs arbitrary: t)
  case Nil
  then show ?case by simp
next
  case (Cons a offs)
  from Cons.prems(1) obtain v where v: "bitfield_get d a 12 = Inr v"
    and r: "sum_part2_3_length d offs (t + v) = Inr s"
    by (auto dest!: err_bind_InrD)
  show ?case using Cons.IH[OF r] bitfield_get_nonneg[OF v] Cons.prems(2) by simp
qed

lemma part2_3_bytes_nonneg: "part2_3_bytes si = Inr m \<Longrightarrow> 0 \<le> m"
  unfolding part2_3_bytes_def
  by (auto dest!: err_bind_InrD dest!: sum_part2_3_length_nonneg)

lemma main_data_spec:
  assumes "0 \<le> begin" "0 \<le> main_len"
  shows "main_data res body begin main_len = Inr (spec_main_data res body begin main_len)"
  using assms by (auto simp: main_data_def spec_main_data_def Let_def)

lemma spec_main_data_length:
  assumes "0 \<le> begin" "0 \<le> main_len" "spec_main_data res body begin main_len = Some dt"
  shows "int (length dt) = main_len"
  using assms
  by (auto simp: spec_main_data_def Let_def py_slice_def py_slice_from_def py_slice_to_def
        py_index_def split: if_splits)

text \<open>
  C8.  For every layer 3 frame given to \<^verbatim>\<open>frame_in\<close>, with \<open>begin\<close> the
  \<^verbatim>\<open>main_data_begin\<close> and \<open>main_len\<close> the \<^verbatim>\<open>part2_3_bytes\<close> of its side info and
  \<open>end = main_len - begin\<close>, the call returns, and what it returns is the main data of the
  case list: nothing if \<open>begin > len(reservoir)\<close>; else nothing if \<open>end > len(raw_body)\<close>;
  else \<open>reservoir[-begin .. end]\<close> if \<open>end < 0\<close>; else
  \<open>reservoir[-begin ..] ++ raw_body[.. end]\<close> if \<open>begin > 0\<close>; else \<open>raw_body[.. end]\<close>.
  Neither assertion of \<^verbatim>\<open>frame_in\<close> fails, because both fields are read as unsigned bit
  fields.
\<close>

theorem frame_in_main_data:
  assumes "layer_index (header fr) = 1" and "side_info fr = Some si"
    and "main_data_begin si = Inr begin" and "part2_3_bytes si = Inr main_len"
  shows "\<exists>a'. frame_in a fr = Inr (a', spec_main_data (reservoir a) (raw_body fr) begin main_len)"
proof -
  have b: "0 \<le> begin" using assms(3) by (rule main_data_begin_nonneg)
  have m: "0 \<le> main_len" using assms(4) by (rule part2_3_bytes_nonneg)
  note md = main_data_spec[OF b m, of "reservoir a" "raw_body fr"]
  show ?thesis
  proof (cases "spec_main_data (reservoir a) (raw_body fr) begin main_len")
    case None
    then show ?thesis
      using assms md by (simp add: frame_in_def Let_def err_bind_def)
  next
    case (Some dt)
    have "int (length dt) = main_len" using spec_main_data_length[OF b m Some] .
    then show ?thesis
      using assms md Some by (simp add: frame_in_def Let_def err_bind_def)
  qed
qed

theorem frame_in_main_data_witness:
  "layer_index (header \<lparr> header = \<lparr> version_index = 3, layer_index = 1, protection_bit = 1,
       bitrate_index = 9, samplerate_index = 0, padded = 0, private_bit = 0, channel_mode = 0,
       mode_extension = 0, copy_control = 0, original = 0, emphasis = 0,
       raw_data = [0xff, 0xfb, 0x90, 0x00] \<rparr>,
     side_info = Some (SideInfo_init 3 0 (Some ([1, 0, 0, 16] @ replicate 28 0))),
     raw_body = [1, 2, 3], frame_crc16 = None, resynced = False, frame_number = 0,
     byte_position = 0 \<rparr>) = 1
   \<and> main_data_begin (SideInfo_init 3 0 (Some ([1, 0, 0, 16] @ replicate 28 0))) = Inr 2
   \<and> part2_3_bytes (SideInfo_init 3 0 (Some ([1, 0, 0, 16] @ replicate 28 0))) = Inr 2
   \<and> (\<exists>a'. frame_in (LogicalFrameAssembler_init\<lparr>reservoir := [9, 8, 7]\<rparr>)
        \<lparr> header = \<lparr> version_index = 3, layer_index = 1, protection_bit = 1,
            bitrate_index = 9, samplerate_index = 0, padded = 0, private_bit = 0, channel_mode = 0,
            mode_extension = 0, copy_control = 0, original = 0, emphasis = 0,
            raw_data = [0xff, 0xfb, 0x90, 0x00] \<rparr>,
          side_info = Some (SideInfo_init 3 0 (Some ([1, 0, 0, 16] @ replicate 28 0))),
          raw_body = [1, 2, 3], frame_crc16 = None, resynced = False, frame_number = 0,
          byte_position = 0 \<rparr> = Inr (a', Some [8, 7]))"
proof -
  have b: "main_data_begin (SideInfo_init 3 0 (Some ([1, 0, 0, 16] @ replicate 28 0))) = Inr 2"
    by code_simp
  have m: "part2_3_bytes (SideInfo_init 3 0 (Some ([1, 0, 0, 16] @ replicate 28 0))) = Inr 2"
    by code_simp
  have sp: "spec_main_data [9, 8, 7] [1, 2, 3] 2 2 = Some [8, 7]"
    by code_simp
  from frame_in_main_data[of "\<lparr> header = \<lparr> version_index = 3, layer_index = 1, protection_bit = 1,
            bitrate_index = 9, samplerate_index = 0, padded = 0, private_bit = 0, channel_mode = 0,
            mode_extension = 0, copy_control = 0, original = 0, emphasis = 0,
            raw_data = [0xff, 0xfb, 0x90, 0x00] \<rparr>,
          side_info = Some (SideInfo_init 3 0 (Some ([1, 0, 0, 16] @ replicate 28 0))),
          raw_body = [1, 2, 3], frame_crc16 = None, resynced = False, frame_number = 0,
          byte_position = 0 \<rparr>" "SideInfo_init 3 0 (Some ([1, 0, 0, 16] @ replicate 28 0))" 2 2
        "LogicalFrameAssembler_init\<lparr>reservoir := [9, 8, 7]\<rparr>"] b m sp
  show ?thesis by (simp add: LogicalFrameAssembler_init_def)
qed


subsection \<open>Bytes returned and bytes buffered\<close>

lemma array_index_error: "array_index xs x = Inl e \<Longrightarrow> e = ValueError"
  by (induction xs) (auto simp: err_bind_def split: if_splits sum.splits)

lemma is_sync_in_range:
  "pos + 4 \<le> length (data s) \<Longrightarrow> \<exists>b. is_sync s pos hdr msk = Inr b"
  by (simp add: is_sync_def)

lemma resync_loop_effect:
  "\<exists>s' r. resync_loop s offset hdr msk = Inr (s', r) \<and> data s' = data s
      \<and> bytes_returned s' = bytes_returned s \<and> read_eof s' = read_eof s"
proof (induction s offset hdr msk rule: resync_loop.induct)
  case (1 s offset hdr msk)
  show ?case
  proof (cases "array_index (drop offset (data s)) 255")
    case (Inl e)
    have "e = ValueError" using Inl by (rule array_index_error)
    then show ?thesis using Inl by (subst resync_loop.simps) simp
  next
    case (Inr i)
    show ?thesis
    proof (cases "(i + offset) + 4 > length (data s)")
      case True
      then show ?thesis using Inr by (subst resync_loop.simps) simp
    next
      case False
      then obtain b where b: "is_sync s (i + offset) hdr msk = Inr b"
        using is_sync_in_range[of "i + offset" s hdr msk] by auto
      show ?thesis
      proof (cases b)
        case True
        then show ?thesis using Inr False b by (subst resync_loop.simps) simp
      next
        case f: False
        from "1.IH"[OF Inr False b[unfolded f]] 
        show ?thesis using Inr False b f by (subst resync_loop.simps) simp
      qed
    qed
  qed
qed


lemma resync_effect:
  "\<exists>s' r. resync s offset hdr msk = Inr (s', r) \<and> data s' = data s
      \<and> bytes_returned s' = bytes_returned s \<and> read_eof s' = read_eof s"
  unfolding resync_def by (rule resync_loop_effect)

lemma identify_effect:
  assumes "identify s = Inr (s', r)"
  shows "data s' = data s \<and> bytes_returned s' = bytes_returned s"
proof -
  obtain s1 r1 where r: "resync s 0 None None = Inr (s1, r1)"
    and k: "data s1 = data s" "bytes_returned s1 = bytes_returned s"
    using resync_effect[of s 0 None None] by blast
  show ?thesis
    using assms r k
    by (auto simp: identify_def Let_def err_bind_def split: if_splits sum.splits prod.splits)
qed

lemma advance_effect:
  assumes "advance s n = Inr s'"
  shows "0 \<le> n \<and> nat n \<le> length (data s) \<and> bytes_returned s' = bytes_returned s + nat n
           \<and> data s' = drop (nat n) (data s)"
  using assms by (auto simp: advance_def split: if_splits)

lemma fromfile_effect:
  assumes "fromfile s file n = Inr (s', rest)"
  shows "data s' = data s @ take (length file - length rest) file \<and> rest = drop (length file - length rest) file
           \<and> bytes_returned s' = bytes_returned s"
  using assms
  by (auto simp: fromfile_def array_fromfile_def split: if_splits)

lemma step_accounted: "accounted st \<Longrightarrow> accounted (step st op)"
proof -
  assume a: "accounted st"
  obtain s t where st: "st = (s, t)" by (cases st)
  show ?thesis
  proof (cases op)
    case (Fromfile fl n)
    show ?thesis
    proof (cases "fromfile s fl n")
      case (Inl e)
      then show ?thesis using a st Fromfile by (simp add: step_def)
    next
      case (Inr p)
      obtain s' rest where p: "p = (s', rest)" by (cases p)
      from fromfile_effect[OF Inr[unfolded p]] show ?thesis
        using a st Fromfile Inr p by (auto simp: step_def accounted_def)
    qed
  next
    case Identify
    show ?thesis
    proof (cases "identify s")
      case (Inl e)
      then show ?thesis using a st Identify by (simp add: step_def)
    next
      case (Inr p)
      obtain s' r where p: "p = (s', r)" by (cases p)
      from identify_effect[OF Inr[unfolded p]] show ?thesis
        using a st Identify Inr p by (simp add: step_def accounted_def)
    qed
  next
    case (Resync offset hdr msk)
    obtain s' r where "resync s offset hdr msk = Inr (s', r)" "data s' = data s"
       "bytes_returned s' = bytes_returned s"
      using resync_effect[of s offset hdr msk] by blast
    then show ?thesis using a st Resync by (simp add: step_def accounted_def)
  next
    case (Advance n)
    show ?thesis
    proof (cases "advance s n")
      case (Inl e)
      then show ?thesis using a st Advance by (simp add: step_def)
    next
      case (Inr s')
      from advance_effect[OF Inr] show ?thesis
        using a st Advance Inr by (simp add: step_def accounted_def)
    qed
  qed
qed

lemma foldl_step_accounted: "accounted st \<Longrightarrow> accounted (foldl step st ops)"
  by (induction ops arbitrary: st) (simp_all add: step_accounted)

lemma run_accounted: "accounted (run ops)"
  unfolding run_def by (rule foldl_step_accounted) (simp add: accounted_def BaseSync_init_def)

text \<open>
  C10.  In every state that a sequence of calls of \<^verbatim>\<open>fromfile\<close>, \<^verbatim>\<open>identify\<close>, \<^verbatim>\<open>resync\<close> and
  \<^verbatim>\<open>advance\<close> reaches from a new \<^verbatim>\<open>BaseSync\<close>, \<open>bytes_returned\<close> plus the length of the buffer
  is the number of bytes appended so far.  \<^verbatim>\<open>advance(n)\<close>, when it does not raise, adds
  exactly \<open>n\<close> to \<open>bytes_returned\<close> and removes exactly the first \<open>n\<close> bytes of the buffer;
  \<^verbatim>\<open>resync\<close> always returns, and neither it nor \<^verbatim>\<open>identify\<close> changes \<open>bytes_returned\<close> or the
  buffer.
\<close>

theorem bytes_accounting:
  "(run ops = (s, appended) \<longrightarrow> bytes_returned s + length (data s) = appended) \<and>
   (advance s0 n = Inr s1 \<longrightarrow>
      0 \<le> n \<and> bytes_returned s1 = bytes_returned s0 + nat n
      \<and> data s0 = take (nat n) (data s0) @ data s1
      \<and> length (data s0) = nat n + length (data s1)) \<and>
   (\<exists>s2 r. resync s0 offset hdr msk = Inr (s2, r)
      \<and> bytes_returned s2 = bytes_returned s0 \<and> data s2 = data s0) \<and>
   (identify s0 = Inr (s3, idn) \<longrightarrow>
      bytes_returned s3 = bytes_returned s0 \<and> data s3 = data s0)"
proof (intro conjI impI)
  assume "run ops = (s, appended)"
  then show "bytes_returned s + length (data s) = appended"
    using run_accounted[of ops] by (simp add: accounted_def)
next
  assume a: "advance s0 n = Inr s1"
  from advance_effect[OF a] show "0 \<le> n" "bytes_returned s1 = bytes_returned s0 + nat n"
    "data s0 = take (nat n) (data s0) @ data s1" "length (data s0) = nat n + length (data s1)"
    by simp_all
next
  show "\<exists>s2 r. resync s0 offset hdr msk = Inr (s2, r)
      \<and> bytes_returned s2 = bytes_returned s0 \<and> data s2 = data s0"
    using resync_effect[of s0 offset hdr msk] by blast
next
  assume "identify s0 = Inr (s3, idn)"
  from identify_effect[OF this] show "bytes_returned s3 = bytes_returned s0" "data s3 = data s0"
    by simp_all
qed


theorem bytes_accounting_witness:
  "run [Fromfile [0, 0, 0, 0xFF, 0xE0, 0, 0, 0xFF] 6, Identify, Advance 3, Resync 0 None None]
     = (BaseSync_init\<lparr>data := [0xFF, 0xE0, 0], bytes_returned := 3\<rparr>, 6)
   \<and> bytes_returned (BaseSync_init\<lparr>data := [0xFF, 0xE0, 0], bytes_returned := 3\<rparr>)
       + length (data (BaseSync_init\<lparr>data := [0xFF, 0xE0, 0], bytes_returned := 3\<rparr>)) = 6
   \<and> advance (BaseSync_init\<lparr>data := [1, 2, 3, 4, 5], sync_skip := 1\<rparr>) 2
       = Inr (BaseSync_init\<lparr>data := [3, 4, 5], bytes_returned := 2\<rparr>)
   \<and> identify (BaseSync_init\<lparr>data := [1, 2, 3, 4, 5], sync_skip := 1\<rparr>)
       = Inr (BaseSync_init\<lparr>data := [1, 2, 3, 4, 5], sync_skip := 1\<rparr>, None)"
proof -
  have h1: "run [Fromfile [0, 0, 0, 0xFF, 0xE0, 0, 0, 0xFF] 6, Identify, Advance 3, Resync 0 None None]
     = (BaseSync_init\<lparr>data := [0xFF, 0xE0, 0], bytes_returned := 3\<rparr>, 6)"
    by code_simp
  have h2: "advance (BaseSync_init\<lparr>data := [1, 2, 3, 4, 5], sync_skip := 1\<rparr>) 2
       = Inr (BaseSync_init\<lparr>data := [3, 4, 5], bytes_returned := 2\<rparr>)"
    by code_simp
  have h3: "identify (BaseSync_init\<lparr>data := [1, 2, 3, 4, 5], sync_skip := 1\<rparr>)
       = Inr (BaseSync_init\<lparr>data := [1, 2, 3, 4, 5], sync_skip := 1\<rparr>, None)"
    by code_simp
  from bytes_accounting[of "[Fromfile [0, 0, 0, 0xFF, 0xE0, 0, 0, 0xFF] 6, Identify, Advance 3, Resync 0 None None]"
      "BaseSync_init\<lparr>data := [0xFF, 0xE0, 0], bytes_returned := 3\<rparr>" 6
      "BaseSync_init\<lparr>data := [1, 2, 3, 4, 5], sync_skip := 1\<rparr>" 2
      "BaseSync_init\<lparr>data := [3, 4, 5], bytes_returned := 2\<rparr>" 0 None None
      "BaseSync_init\<lparr>data := [1, 2, 3, 4, 5], sync_skip := 1\<rparr>" None] h1 h2 h3
  show ?thesis by simp
qed


subsection \<open>The position that resync returns\<close>

text \<open>
  C4.  The claim: \<^verbatim>\<open>resync\<close> returns the smallest position \<open>q\<close>, from
  \<open>max(offset, sync_skip)\<close> on, whose four bytes match the header under the mask.  In the
  buffer \<open>FF 00 00 00 FF E0 00 00\<close>, with \<open>sync_skip = 0\<close> and the default header and mask
  \<open>0xffe00000\<close>, the only such position is 4.  The code rejects the candidate at 0 and sets
  \<open>sync_skip\<close> to 1, finds the candidate at 4 and adds this position to \<open>sync_skip\<close>: it
  returns 5 and leaves \<open>sync_skip = 5\<close>.
\<close>

theorem resync_returns_past_sync:
  "resync (BaseSync_init\<lparr>data := [0xFF, 0, 0, 0, 0xFF, 0xE0, 0, 0]\<rparr>) 0 None None
     = Inr (BaseSync_init\<lparr>data := [0xFF, 0, 0, 0, 0xFF, 0xE0, 0, 0], sync_skip := 5\<rparr>, 5)
   \<and> head32 [0xFF, 0, 0, 0, 0xFF, 0xE0, 0, 0] 4 AND 0xffe00000 = 0xffe00000
   \<and> head32 [0xFF, 0, 0, 0, 0xFF, 0xE0, 0, 0] 0 AND 0xffe00000 \<noteq> 0xffe00000
   \<and> head32 [0xFF, 0, 0, 0, 0xFF, 0xE0, 0, 0] 1 AND 0xffe00000 \<noteq> 0xffe00000
   \<and> head32 [0xFF, 0, 0, 0, 0xFF, 0xE0, 0, 0] 2 AND 0xffe00000 \<noteq> 0xffe00000
   \<and> head32 [0xFF, 0, 0, 0, 0xFF, 0xE0, 0, 0] 3 AND 0xffe00000 \<noteq> 0xffe00000
   \<and> sync_header BaseSync_init = 0xffe00000 \<and> sync_mask BaseSync_init = 0xffe00000"
  by code_simp


subsection \<open>The bytes that need no second look\<close>

text \<open>
  C5.  The claim: \<open>sync_skip \<le> len(data)\<close> in every reachable state.  A new object is fed
  the eight bytes \<open>00 00 00 FF 00 00 00 FF\<close> of a file that ends there, then \<^verbatim>\<open>identify\<close> is
  called.  Its call of \<^verbatim>\<open>resync\<close> rejects the candidate at 3, which makes \<open>sync_skip\<close> 4, and
  adds the position 7 of the second candidate, which is too close to the end: the state has
  \<open>sync_skip = 11\<close> with 8 bytes in the buffer, and \<^verbatim>\<open>identify\<close> reports 11 bytes of
  garbage.
\<close>

theorem sync_skip_exceeds_buffer:
  "run [Fromfile [0, 0, 0, 0xFF, 0, 0, 0, 0xFF] 4096, Identify]
     = (BaseSync_init\<lparr>data := [0, 0, 0, 0xFF, 0, 0, 0, 0xFF], read_eof := True, sync_skip := 11\<rparr>, 8)
   \<and> identify (BaseSync_init\<lparr>data := [0, 0, 0, 0xFF, 0, 0, 0, 0xFF], read_eof := True\<rparr>)
     = Inr (BaseSync_init\<lparr>data := [0, 0, 0, 0xFF, 0, 0, 0, 0xFF], read_eof := True, sync_skip := 11\<rparr>,
            Some (IdGarbage 11))
   \<and> \<not> sync_skip (BaseSync_init\<lparr>data := [0, 0, 0, 0xFF, 0, 0, 0, 0xFF], read_eof := True, sync_skip := 11\<rparr>)
         \<le> length (data (BaseSync_init\<lparr>data := [0, 0, 0, 0xFF, 0, 0, 0, 0xFF], read_eof := True, sync_skip := 11\<rparr>))"
  by code_simp


subsection \<open>The items of a stream\<close>

text \<open>
  C3.  The claim: the items that repeated calls of \<^verbatim>\<open>readitem\<close> return after the end of the
  file hold all the bytes that were fed, a tail of fewer than 4 bytes included.  For the
  one-byte file \<open>00\<close>: \<^verbatim>\<open>readitem\<close> returns \<open>None\<close> for a buffer of fewer than 4 bytes, before
  it calls \<^verbatim>\<open>identify\<close>, and leaves the state as it is, so no number of calls returns an
  item; \<^verbatim>\<open>identify\<close>, called on the same state, reports one byte of garbage.
\<close>

theorem readitem_keeps_short_tail:
  "fromfile PhysicalFrameSync_init [0x00] 4096
     = Inr (PhysicalFrameSync_init\<lparr>data := [0x00], read_eof := True\<rparr>, [])
   \<and> readitem (PhysicalFrameSync_init\<lparr>data := [0x00], read_eof := True\<rparr>)
     = Inr (PhysicalFrameSync_init\<lparr>data := [0x00], read_eof := True\<rparr>, None)
   \<and> readitems n (PhysicalFrameSync_init\<lparr>data := [0x00], read_eof := True\<rparr>) = Inr []
   \<and> identify (PhysicalFrameSync_init\<lparr>data := [0x00], read_eof := True\<rparr>)
     = Inr (PhysicalFrameSync_init\<lparr>data := [0x00], read_eof := True\<rparr>, Some (IdGarbage 1))"
proof -
  have r: "readitem (PhysicalFrameSync_init\<lparr>data := [0x00], read_eof := True\<rparr>)
     = Inr (PhysicalFrameSync_init\<lparr>data := [0x00], read_eof := True\<rparr>, None)"
    by code_simp
  have f: "fromfile PhysicalFrameSync_init [0x00] 4096
     = Inr (PhysicalFrameSync_init\<lparr>data := [0x00], read_eof := True\<rparr>, [])"
    by code_simp
  have i: "identify (PhysicalFrameSync_init\<lparr>data := [0x00], read_eof := True\<rparr>)
     = Inr (PhysicalFrameSync_init\<lparr>data := [0x00], read_eof := True\<rparr>, Some (IdGarbage 1))"
    by code_simp
  have "readitems n (PhysicalFrameSync_init\<lparr>data := [0x00], read_eof := True\<rparr>) = Inr []"
    by (cases n) (simp_all add: r err_bind_def)
  then show ?thesis using r f i by simp
qed


text \<open>
  Every buffer that starts with a syncword ends \<^verbatim>\<open>readitem\<close> in the same way: the first
  attribute that \<^verbatim>\<open>_create_frame\<close> reads from the header beyond its fields is missing.
\<close>

lemma readitem_sync_raises:
  assumes "4 \<le> length (data s)" and "is_sync s 0 None None = Inr True"
  shows "readitem s = Inl AttributeError"
proof -
  have ne: "data s \<noteq> []" using assms(1) by auto
  have i: "identify s = Inr (s, Some IdSync)"
    using assms by (simp add: identify_def Let_def err_bind_def)
  have c: "create_frame s = Inl AttributeError"
    using assms(1) ne
    by (simp add: create_frame_def Let_def err_bind_def FrameHeader_init_def
          FrameHeader_decode_def FrameHeader_frame_size_def is_MP3DataError_def)
  show ?thesis
    using assms(1) i c by (simp add: readitem_def Let_def err_bind_def)
qed


text \<open>
  C1.  The claim: for the header \<open>FF FB 90 00\<close> followed by 417 zero bytes and the end of
  the file, the first item of \<^verbatim>\<open>readitem\<close> is a frame of 417 bytes with a body of 381 bytes,
  at 128000 bps and 44100 Hz.  The header decodes to MPEG1 layer 3 with bitrate index 9
  and samplerate index 0, for which the tables give these numbers (frame size 417, side
  info size 32, so a body of \<open>417 - 4 - 32 = 381\<close> bytes).  But \<^verbatim>\<open>readitem\<close> does not get
  that far: \<^verbatim>\<open>identify\<close> finds the syncword, \<^verbatim>\<open>_create_frame\<close> reads \<^verbatim>\<open>head.frame_size\<close>, and
  the call ends with \<^verbatim>\<open>AttributeError\<close>.
\<close>

theorem readitem_S1_raises:
  "fromfile PhysicalFrameSync_init S1_input 4096
     = Inr (PhysicalFrameSync_init\<lparr>data := S1_input, read_eof := True\<rparr>, [])
   \<and> identify (PhysicalFrameSync_init\<lparr>data := S1_input, read_eof := True\<rparr>)
     = Inr (PhysicalFrameSync_init\<lparr>data := S1_input, read_eof := True\<rparr>, Some IdSync)
   \<and> readitem (PhysicalFrameSync_init\<lparr>data := S1_input, read_eof := True\<rparr>) = Inl AttributeError
   \<and> FrameHeader_init (Some S1_input) =
       Inr \<lparr> version_index = 3, layer_index = 1, protection_bit = 1, bitrate_index = 9,
              samplerate_index = 0, padded = 0, private_bit = 0, channel_mode = 0,
              mode_extension = 0, copy_control = 0, original = 0, emphasis = 0,
              raw_data = [0xFF, 0xFB, 0x90, 0x00] \<rparr>
   \<and> frame_size 3 1 9 0 0 = Inr (Some 417) \<and> side_info_size 3 0 = 32
   \<and> bitrate 3 1 9 = Inr (Some 128000) \<and> samplerate 3 0 = Inr 44100"
  by code_simp

end
